theory Spec2Isabelle
  imports Complex_Main
begin

section \<open>JavaScript numbers\<close>

text \<open>
  A JavaScript number is an IEEE 754 binary64 value. A finite one is modelled by the real
  it denotes, and every arithmetic operation of the cropper by the exact operation
  followed by \<open>fl\<close>, the rounding to the nearest number with 53 significant bits, ties
  to the even significand. \<open>Math.min\<close> and \<open>Math.max\<close> are exact, \<open>min\<close> and
  \<open>max\<close>. The exponent range is not part of the model: \<open>fl\<close> is the rounding of
  binary64 wherever the exact result is 0 or has a magnitude from \<open>2^-1022\<close> up to
  \<open>2^1024\<close>, and the theorems about the cropper bound the target ratio so that every
  intermediate result is in that range. \<open>NaN\<close> and the infinities are outside the
  model. A numeric literal such as \<open>1.08\<close> is the double next to it, \<open>fl (27 / 25)\<close>.
\<close>

definition roundTiesToEven :: "real \<Rightarrow> int" where
  "roundTiesToEven t =
     (if t - of_int \<lfloor>t\<rfloor> < 1 / 2 then \<lfloor>t\<rfloor>
      else if 1 / 2 < t - of_int \<lfloor>t\<rfloor> then \<lfloor>t\<rfloor> + 1
      else if even \<lfloor>t\<rfloor> then \<lfloor>t\<rfloor> else \<lfloor>t\<rfloor> + 1)"

text \<open>The exponent \<open>e\<close> with \<open>2^e \<le> |v| < 2^(e+1)\<close>.\<close>

definition binade :: "real \<Rightarrow> int" where
  "binade v = \<lfloor>log 2 \<bar>v\<bar>\<rfloor>"

text \<open>Rounding to 53 significant bits: to a multiple of \<open>2^(e - 52)\<close>.\<close>

definition fl :: "real \<Rightarrow> real" where
  "fl v =
     (if v = 0 then 0
      else of_int (roundTiesToEven (v / 2 powi (binade v - 52))) * 2 powi (binade v - 52))"

section \<open>The crop selection of \<open>ImageCropper\<close> (src/App.tsx, lines 335-374)\<close>

text \<open>The component state \<open>useState({ x: 10, y: 10, width: 80 })\<close>, in percent.\<close>

record crop =
  crop_x :: real
  crop_y :: real
  crop_width :: real

definition initialCrop :: crop where
  "initialCrop = \<lparr>crop_x = 10, crop_y = 10, crop_width = 80\<rparr>"

text \<open>
  Lines 341-343, computed at every render from the state of that render:
  \<^verbatim>\<open>
  const height = crop.width / targetRatio;
  const clampedHeight = Math.min(height, 100 - crop.y);
  const clampedWidth = clampedHeight * targetRatio;
  \<close>
\<close>

definition height :: "real \<Rightarrow> crop \<Rightarrow> real" where
  "height targetRatio c = fl (crop_width c / targetRatio)"

definition clampedHeight :: "real \<Rightarrow> crop \<Rightarrow> real" where
  "clampedHeight targetRatio c = min (height targetRatio c) (fl (100 - crop_y c))"

definition clampedWidth :: "real \<Rightarrow> crop \<Rightarrow> real" where
  "clampedWidth targetRatio c = fl (clampedHeight targetRatio c * targetRatio)"

text \<open>
  The state update of \<open>handleMouseMove\<close> (lines 351-355), for a pointer at
  \<open>(px, py)\<close> percent of the container:
  \<^verbatim>\<open>
  setCrop(prev => ({
    ...prev,
    x: Math.max(0, Math.min(x - prev.width / 2, 100 - prev.width)),
    y: Math.max(0, Math.min(y - clampedHeight / 2, 100 - clampedHeight))
  }));
  \<close>
  The updater reads the width from \<open>prev\<close>, the state it updates, but
  \<open>clampedHeight\<close> from the closure of the handler: it is the value computed at the
  render the handler belongs to, from the selection \<open>shown\<close> at that render. The two
  selections differ when more than one move is handled before the component renders
  again.
\<close>

definition updateSelection :: "real \<Rightarrow> crop \<Rightarrow> crop \<Rightarrow> real \<Rightarrow> real \<Rightarrow> crop" where
  "updateSelection targetRatio shown prev px py =
     prev\<lparr>crop_x := max 0 (min (fl (px - fl (crop_width prev / 2)))
                               (fl (100 - crop_width prev))),
          crop_y := max 0 (min (fl (py - fl (clampedHeight targetRatio shown / 2)))
                               (fl (100 - clampedHeight targetRatio shown)))\<rparr>"

text \<open>
  The handler itself (lines 345-356). It does nothing unless a drag is in progress and
  the container is mounted; otherwise the pointer position is taken relative to the
  container's bounding rectangle, in percent of its size:
  \<^verbatim>\<open>
  if (!isDragging || !containerRef.current) return;
  const rect = containerRef.current.getBoundingClientRect();
  const x = ((e.clientX - rect.left) / rect.width) * 100;
  const y = ((e.clientY - rect.top) / rect.height) * 100;
  \<close>
  \<open>container\<close> is the bounding rectangle of \<open>containerRef.current\<close>, when there
  is one. A rectangle of width or height 0, where JavaScript divides by zero, is outside
  the model; the properties of \<open>updateSelection\<close> hold for every real pointer
  position.
\<close>

record DOMRect =
  rect_left :: real
  rect_top :: real
  rect_width :: real
  rect_height :: real

definition handleMouseMove ::
  "real \<Rightarrow> bool \<Rightarrow> DOMRect option \<Rightarrow> crop \<Rightarrow> crop \<Rightarrow> real \<Rightarrow> real \<Rightarrow> crop" where
  "handleMouseMove targetRatio isDragging container shown prev clientX clientY =
     (case container of
        None \<Rightarrow> prev
      | Some rect \<Rightarrow>
          if \<not> isDragging then prev
          else
            let x = fl (fl (fl (clientX - rect_left rect) / rect_width rect) * 100);
                y = fl (fl (fl (clientY - rect_top rect) / rect_height rect) * 100)
            in updateSelection targetRatio shown prev x y)"

text \<open>
  The component over time. Its state is the selection; \<open>rendered\<close> is the selection of
  the last render, the one that is on screen and that the closures of the handlers and of
  \<open>applyCrop\<close> hold, and \<open>current\<close> is the state as the updates so far have left it.
  A pointer move (during a drag, over the mounted container) updates the current
  selection; a render makes the current selection the rendered one.
\<close>

record cropper =
  rendered :: crop
  current :: crop

definition mounted :: cropper where
  "mounted = \<lparr>rendered = initialCrop, current = initialCrop\<rparr>"

datatype event = PointerMove real real | Rerender

fun step :: "real \<Rightarrow> cropper \<Rightarrow> event \<Rightarrow> cropper" where
  "step targetRatio s (PointerMove px py) =
     s\<lparr>current := updateSelection targetRatio (rendered s) (current s) px py\<rparr>"
| "step targetRatio s Rerender = s\<lparr>rendered := current s\<rparr>"

definition run :: "real \<Rightarrow> event list \<Rightarrow> cropper" where
  "run targetRatio evs = foldl (step targetRatio) mounted evs"

section \<open>Configuration tables (src/App.tsx, lines 6-19)\<close>

datatype Platform = LinkedIn | Twitter | Instagram | Facebook | Email

text \<open>\<open>PLATFORM_CONFIG[p].numericRatio\<close>, the ratio \<open>PlatformCard\<close> passes to the cropper.\<close>

definition numericRatio :: "Platform \<Rightarrow> real" where
  "numericRatio p =
     (case p of LinkedIn \<Rightarrow> 16 / 9 | Twitter \<Rightarrow> 16 / 9 | Instagram \<Rightarrow> 1
      | Facebook \<Rightarrow> 16 / 9 | Email \<Rightarrow> 16 / 9)"

text \<open>An entry of \<open>FONTS\<close>; \<open>weight\<close> is an optional property.\<close>

record font_entry =
  font_name :: string
  font_family :: string
  font_weight :: "string option"

definition FONTS :: "font_entry list" where
  "FONTS =
     [\<lparr>font_name = ''Sans'', font_family = '''Inter', sans-serif'', font_weight = None\<rparr>,
      \<lparr>font_name = ''Serif'', font_family = '''Playfair Display', serif'', font_weight = None\<rparr>,
      \<lparr>font_name = ''Mono'', font_family = '''Inter Tight', monospace'', font_weight = None\<rparr>,
      \<lparr>font_name = ''Display'', font_family = '''Inter', sans-serif'',
       font_weight = Some ''900''\<rparr>]"

section \<open>The 2D canvas, as far as the code uses it\<close>

text \<open>
  A decoded image: its natural size and its pixels (RGBA). For an \<open>Image\<close> that is
  not part of the document, as the one \<open>ImageEditor\<close> creates, \<open>img.width\<close> and
  \<open>img.height\<close> are the natural size as well.
\<close>

type_synonym rgba = "nat \<times> nat \<times> nat \<times> nat"

record image =
  naturalWidth :: nat
  naturalHeight :: nat
  pixel :: "nat \<Rightarrow> nat \<Rightarrow> rgba"

text \<open>
  The drawing state of a 2D context, restricted to the five attributes the code sets.
  The font shorthand \<open>`${weight} ${size}px ${family}`\<close> is kept as its three parts.
\<close>

record font_spec =
  fs_weight :: string
  fs_sizePx :: real
  fs_family :: string

record context2d =
  fillStyle :: string
  ctxFont :: font_spec
  textAlign :: string
  shadowColor :: string
  shadowBlur :: real

text \<open>The state of a fresh or reset context (black fill, 10px sans-serif, no shadow).\<close>

definition defaultContext :: context2d where
  "defaultContext =
     \<lparr>fillStyle = ''#000000'',
      ctxFont = \<lparr>fs_weight = ''normal'', fs_sizePx = 10, fs_family = ''sans-serif''\<rparr>,
      textAlign = ''start'', shadowColor = ''rgba(0, 0, 0, 0)'', shadowBlur = 0\<rparr>"

text \<open>
  A surface is its size, the drawing state of its context, and the drawing calls made
  since its bitmap was last cleared, each with the drawing state it was made under.
  A rectangle is \<open>(x, y, w, h)\<close>.
\<close>

type_synonym rect = "real \<times> real \<times> real \<times> real"

datatype drawop =
  DrawImage context2d image rect rect
| FillText context2d string real real

record canvas =
  canvasWidth :: nat
  canvasHeight :: nat
  ctx :: context2d
  ops :: "drawop list"

text \<open>\<open>document.createElement('canvas')\<close>: 300 by 150, blank.\<close>

definition createCanvas :: canvas where
  "createCanvas = \<lparr>canvasWidth = 300, canvasHeight = 150, ctx = defaultContext, ops = []\<rparr>"

text \<open>
  \<open>canvas.width\<close> and \<open>canvas.height\<close> are \<open>unsigned long\<close> attributes that
  reflect a content attribute. A number assigned to one is first converted to an
  unsigned 32-bit integer (the fraction is dropped, toward zero, then modulo \<open>2^32\<close>);
  a result above \<open>2^31 - 1\<close> is replaced by the default (300, 150). The assignment also
  clears the bitmap and resets the context to its default state.
\<close>

definition toUnsignedLong :: "real \<Rightarrow> nat" where
  "toUnsignedLong v = nat ((if v < 0 then - \<lfloor>- v\<rfloor> else \<lfloor>v\<rfloor>) mod 2 ^ 32)"

definition reflectUnsignedLong :: "nat \<Rightarrow> nat \<Rightarrow> nat" where
  "reflectUnsignedLong dflt n = (if n \<le> 2147483647 then n else dflt)"

definition setWidth :: "real \<Rightarrow> canvas \<Rightarrow> canvas" where
  "setWidth v cv =
     \<lparr>canvasWidth = reflectUnsignedLong 300 (toUnsignedLong v),
      canvasHeight = canvasHeight cv, ctx = defaultContext, ops = []\<rparr>"

definition setHeight :: "real \<Rightarrow> canvas \<Rightarrow> canvas" where
  "setHeight v cv =
     \<lparr>canvasWidth = canvasWidth cv,
      canvasHeight = reflectUnsignedLong 150 (toUnsignedLong v),
      ctx = defaultContext, ops = []\<rparr>"

text \<open>
  \<open>ctx.drawImage(img, sx, sy, sw, sh, dx, dy, dw, dh)\<close>, and the three-argument
  \<open>ctx.drawImage(img, dx, dy)\<close>, which draws the whole image at its natural size.
\<close>

definition drawImage ::
  "image \<Rightarrow> real \<Rightarrow> real \<Rightarrow> real \<Rightarrow> real \<Rightarrow> real \<Rightarrow> real \<Rightarrow> real \<Rightarrow> real \<Rightarrow> canvas \<Rightarrow> canvas" where
  "drawImage img sx sy sw sh dx dy dw dh cv =
     cv\<lparr>ops := ops cv @ [DrawImage (ctx cv) img (sx, sy, sw, sh) (dx, dy, dw, dh)]\<rparr>"

definition drawImageAt :: "image \<Rightarrow> real \<Rightarrow> real \<Rightarrow> canvas \<Rightarrow> canvas" where
  "drawImageAt img dx dy cv =
     drawImage img 0 0 (real (naturalWidth img)) (real (naturalHeight img))
       dx dy (real (naturalWidth img)) (real (naturalHeight img)) cv"

definition fillText :: "string \<Rightarrow> real \<Rightarrow> real \<Rightarrow> canvas \<Rightarrow> canvas" where
  "fillText t tx ty cv = cv\<lparr>ops := ops cv @ [FillText (ctx cv) t tx ty]\<rparr>"

text \<open>The assignments to the context's attributes.\<close>

definition setFillStyle :: "string \<Rightarrow> canvas \<Rightarrow> canvas" where
  "setFillStyle v cv = cv\<lparr>ctx := (ctx cv)\<lparr>fillStyle := v\<rparr>\<rparr>"

definition setFont :: "font_spec \<Rightarrow> canvas \<Rightarrow> canvas" where
  "setFont v cv = cv\<lparr>ctx := (ctx cv)\<lparr>ctxFont := v\<rparr>\<rparr>"

definition setTextAlign :: "string \<Rightarrow> canvas \<Rightarrow> canvas" where
  "setTextAlign v cv = cv\<lparr>ctx := (ctx cv)\<lparr>textAlign := v\<rparr>\<rparr>"

definition setShadowColor :: "string \<Rightarrow> canvas \<Rightarrow> canvas" where
  "setShadowColor v cv = cv\<lparr>ctx := (ctx cv)\<lparr>shadowColor := v\<rparr>\<rparr>"

definition setShadowBlur :: "real \<Rightarrow> canvas \<Rightarrow> canvas" where
  "setShadowBlur v cv = cv\<lparr>ctx := (ctx cv)\<lparr>shadowBlur := v\<rparr>\<rparr>"

text \<open>
  The bitmap of a surface holds 8-bit pixels with the colour channels premultiplied by
  alpha; what is read back or exported has the premultiplication undone. Both steps
  round to the nearest integer, so a pixel that is neither opaque nor fully transparent
  can come back changed.
\<close>

definition premultiply :: "rgba \<Rightarrow> rgba" where
  "premultiply p =
     (case p of (r, g, b, a) \<Rightarrow>
        ((r * a + 127) div 255, (g * a + 127) div 255, (b * a + 127) div 255, a))"

definition unpremultiply :: "rgba \<Rightarrow> rgba" where
  "unpremultiply p =
     (case p of (r, g, b, a) \<Rightarrow>
        if a = 0 then (0, 0, 0, 0)
        else ((r * 255 + a div 2) div a, (g * 255 + a div 2) div a,
              (b * 255 + a div 2) div a, a))"

text \<open>
  The pixels a surface exports, where the drawing calls fix them without resampling or
  glyph rasterisation: a cleared surface is transparent black, and the whole image drawn
  once at the origin, at its natural size and without a shadow, over a cleared surface
  leaves each pixel of the image, premultiplied. Anything else is left to the platform
  (\<open>None\<close>).
\<close>

definition wholeImage :: "image \<Rightarrow> rect" where
  "wholeImage img = (0, 0, real (naturalWidth img), real (naturalHeight img))"

fun pixelsOf :: "drawop list \<Rightarrow> nat \<Rightarrow> nat \<Rightarrow> rgba option" where
  "pixelsOf [] i j = Some (0, 0, 0, 0)"
| "pixelsOf [DrawImage c img src dst] i j =
     (if c = defaultContext \<and> src = wholeImage img \<and> dst = wholeImage img
      then Some (if i < naturalWidth img \<and> j < naturalHeight img
                 then unpremultiply (premultiply (pixel img i j))
                 else (0, 0, 0, 0))
      else None)"
| "pixelsOf other i j = None"

definition surfacePixel :: "canvas \<Rightarrow> nat \<Rightarrow> nat \<Rightarrow> rgba option" where
  "surfacePixel cv i j =
     (if i < canvasWidth cv \<and> j < canvasHeight cv then pixelsOf (ops cv) i j else None)"

text \<open>The text drawing calls of a surface, in order: state, string, anchor.\<close>

fun textDraws :: "drawop list \<Rightarrow> (context2d \<times> string \<times> real \<times> real) list" where
  "textDraws [] = []"
| "textDraws (FillText c t tx ty # rest) = (c, t, tx, ty) # textDraws rest"
| "textDraws (DrawImage c img src dst # rest) = textDraws rest"

subsection \<open>Image elements\<close>

text \<open>
  An \<open>img\<close> element is in one of three states: its image is available, it is not
  (not yet loaded, or not fully decodable), or loading or decoding it has failed and the
  element is broken. \<open>naturalWidth\<close> and \<open>naturalHeight\<close> are 0 unless the image is
  available.
\<close>

datatype img_element = Available image | Pending | Broken

definition elementNaturalWidth :: "img_element \<Rightarrow> nat" where
  "elementNaturalWidth el = (case el of Available img \<Rightarrow> naturalWidth img | _ \<Rightarrow> 0)"

definition elementNaturalHeight :: "img_element \<Rightarrow> nat" where
  "elementNaturalHeight el = (case el of Available img \<Rightarrow> naturalHeight img | _ \<Rightarrow> 0)"

text \<open>
  \<open>drawImage\<close> on an element first checks that the image is usable: for a broken
  element it throws \<open>InvalidStateError\<close>; for an image that is not available, or has a
  natural width or height of 0, it returns without drawing, as it does when the source
  rectangle has a width or height of 0.
\<close>

datatype dom_exception = InvalidStateError

datatype usability = Good | Bad

definition checkUsability :: "img_element \<Rightarrow> dom_exception + usability" where
  "checkUsability el =
     (case el of
        Broken \<Rightarrow> Inl InvalidStateError
      | Pending \<Rightarrow> Inr Bad
      | Available img \<Rightarrow>
          if naturalWidth img = 0 \<or> naturalHeight img = 0 then Inr Bad else Inr Good)"

definition drawImageElement ::
  "img_element \<Rightarrow> real \<Rightarrow> real \<Rightarrow> real \<Rightarrow> real \<Rightarrow> real \<Rightarrow> real \<Rightarrow> real \<Rightarrow> real \<Rightarrow> canvas \<Rightarrow>
   dom_exception + canvas" where
  "drawImageElement el sx sy sw sh dx dy dw dh cv =
     (case checkUsability el of
        Inl e \<Rightarrow> Inl e
      | Inr Bad \<Rightarrow> Inr cv
      | Inr Good \<Rightarrow>
          if sw = 0 \<or> sh = 0 then Inr cv
          else (case el of
                  Available img \<Rightarrow> Inr (drawImage img sx sy sw sh dx dy dw dh cv)
                | _ \<Rightarrow> Inr cv))"

section \<open>How an operation ends\<close>

text \<open>
  The error kinds are the specification's. An operation of the code either hands a
  result to its caller (\<open>onConfirm\<close>, \<open>onSave\<close>), or returns without calling
  anything (\<open>NoOp\<close>), or is left by an exception of the platform that it does not catch
  (\<open>Thrown\<close>); \<open>Failed\<close> is an error handed to the caller.
\<close>

datatype error = InvalidInput | RenderError

datatype 'a outcome = Delivered 'a | Failed error | Thrown dom_exception | NoOp

section \<open>\<open>ImageCropper\<close>: entering crop mode and applying the crop\<close>

text \<open>
  Mounting the component (line 336): the state starts at the default selection,
  whatever the image and the ratio are.
\<close>

definition beginCrop :: "image \<Rightarrow> real \<Rightarrow> crop outcome" where
  "beginCrop img targetRatio = Delivered initialCrop"

text \<open>
  \<open>applyCrop\<close> (lines 358-374), a closure of the render: \<open>c\<close> is the rendered
  selection. \<open>imageRef\<close> is \<open>imageRef.current\<close>, \<open>hasCtx\<close> says whether
  \<open>canvas.getContext('2d')\<close> returned a context. The data URL handed to
  \<open>onConfirm\<close> is modelled by the surface it encodes.
  \<^verbatim>\<open>
  const img = imageRef.current;
  if (!img) return;
  const canvas = document.createElement('canvas');
  const ctx = canvas.getContext('2d');
  if (!ctx) return;
  const sourceX = (crop.x / 100) * img.naturalWidth;
  const sourceY = (crop.y / 100) * img.naturalHeight;
  const sourceWidth = (clampedWidth / 100) * img.naturalWidth;
  const sourceHeight = (clampedHeight / 100) * img.naturalHeight;
  canvas.width = sourceWidth;
  canvas.height = sourceHeight;
  ctx.drawImage(img, sourceX, sourceY, sourceWidth, sourceHeight, 0, 0, sourceWidth, sourceHeight);
  onConfirm(canvas.toDataURL());
  \<close>
\<close>

definition applyCrop ::
  "real \<Rightarrow> crop \<Rightarrow> img_element option \<Rightarrow> bool \<Rightarrow> canvas outcome" where
  "applyCrop targetRatio c imageRef hasCtx =
     (case imageRef of
        None \<Rightarrow> NoOp
      | Some img \<Rightarrow>
          if \<not> hasCtx then NoOp
          else
            let sourceX = fl (fl (crop_x c / 100) * real (elementNaturalWidth img));
                sourceY = fl (fl (crop_y c / 100) * real (elementNaturalHeight img));
                sourceWidth =
                  fl (fl (clampedWidth targetRatio c / 100) * real (elementNaturalWidth img));
                sourceHeight =
                  fl (fl (clampedHeight targetRatio c / 100) * real (elementNaturalHeight img))
            in case drawImageElement img sourceX sourceY sourceWidth sourceHeight
                      0 0 sourceWidth sourceHeight
                      (setHeight sourceHeight (setWidth sourceWidth createCanvas)) of
                 Inl e \<Rightarrow> Thrown e
               | Inr canvas \<Rightarrow> Delivered canvas)"

section \<open>\<open>ImageEditor\<close>: the text overlay (lines 425-463)\<close>

text \<open>
  The component state: text, font entry, colour, font size and vertical position. The
  two arithmetic expressions of the overlay, the font size and the anchor of the text,
  are kept as the exact values of the expressions; the doubles the code computes are
  their roundings.
\<close>

record style =
  st_text :: string
  st_font :: font_entry
  st_color :: string
  st_fontSize :: real
  st_positionY :: real

text \<open>\<open>v || d\<close> on an optional string: \<open>undefined\<close> and the empty string are falsy.\<close>

definition orDefault :: "string option \<Rightarrow> string \<Rightarrow> string" where
  "orDefault v d = (case v of None \<Rightarrow> d | Some s \<Rightarrow> if s = [] then d else s)"

text \<open>
  The body of \<open>img.onload\<close> (lines 442-455), on the surface \<open>cv\<close> as earlier renders
  left it:
  \<^verbatim>\<open>
  canvas.width = img.width;
  canvas.height = img.height;
  ctx.drawImage(img, 0, 0);
  if (text) {
    ctx.fillStyle = color;
    ctx.font = `${font.weight || '700'} ${fontSize * (img.width / 500)}px ${font.family}`;
    ctx.textAlign = 'center';
    ctx.shadowColor = 'rgba(0,0,0,0.5)';
    ctx.shadowBlur = 10;
    ctx.fillText(text, canvas.width / 2, (canvas.height * positionY) / 100);
  }
  \<close>
\<close>

definition onload :: "image \<Rightarrow> style \<Rightarrow> canvas \<Rightarrow> canvas" where
  "onload img st cv =
     (let cv1 = setWidth (real (naturalWidth img)) cv;
          cv2 = setHeight (real (naturalHeight img)) cv1;
          cv3 = drawImageAt img 0 0 cv2
      in if st_text st \<noteq> [] then
           let cv4 = setFillStyle (st_color st) cv3;
               cv5 = setFont
                       \<lparr>fs_weight = orDefault (font_weight (st_font st)) ''700'',
                        fs_sizePx = st_fontSize st * (real (naturalWidth img) / 500),
                        fs_family = font_family (st_font st)\<rparr> cv4;
               cv6 = setTextAlign ''center'' cv5;
               cv7 = setShadowColor ''rgba(0,0,0,0.5)'' cv6;
               cv8 = setShadowBlur 10 cv7
           in fillText (st_text st) (real (canvasWidth cv8) / 2)
                (real (canvasHeight cv8) * st_positionY st / 100) cv8
         else cv3)"

text \<open>
  The effect (lines 433-456): nothing happens without the canvas element or its context,
  and the drawing runs only once the image has loaded (\<open>loaded = None\<close>: the load
  fails, \<open>onload\<close> never fires, and there is no \<open>onerror\<close> handler).
\<close>

definition render :: "canvas option \<Rightarrow> bool \<Rightarrow> image option \<Rightarrow> style \<Rightarrow> canvas option" where
  "render canvasRef hasCtx loaded st =
     (case canvasRef of
        None \<Rightarrow> None
      | Some cv \<Rightarrow>
          if \<not> hasCtx then Some cv
          else (case loaded of None \<Rightarrow> Some cv | Some img \<Rightarrow> Some (onload img st cv)))"

text \<open>\<open>handleSave\<close> (lines 458-463): the surface, as it is, goes to \<open>onSave\<close>.\<close>

definition handleSave :: "canvas option \<Rightarrow> canvas outcome" where
  "handleSave canvasRef = (case canvasRef of None \<Rightarrow> NoOp | Some cv \<Rightarrow> Delivered cv)"

text \<open>The initial state of the editor (lines 426-430): no text, the first font, white, 32, 50.\<close>

definition initialStyle :: style where
  "initialStyle =
     \<lparr>st_text = [], st_font = hd FONTS, st_color = ''#FFFFFF'', st_fontSize = 32,
      st_positionY = 50\<rparr>"

section \<open>Auxiliary definitions\<close>

text \<open>The drawing state \<open>onload\<close> has set up when it calls \<open>fillText\<close>.\<close>

definition textContext :: "image \<Rightarrow> style \<Rightarrow> context2d" where
  "textContext img st =
     \<lparr>fillStyle = st_color st,
      ctxFont = \<lparr>fs_weight = orDefault (font_weight (st_font st)) ''700'',
                 fs_sizePx = st_fontSize st * (real (naturalWidth img) / 500),
                 fs_family = font_family (st_font st)\<rparr>,
      textAlign = ''center'', shadowColor = ''rgba(0,0,0,0.5)'', shadowBlur = 10\<rparr>"

text \<open>An image for concrete examples: every pixel has the same colour.\<close>

definition solidImage :: "nat \<Rightarrow> nat \<Rightarrow> rgba \<Rightarrow> image" where
  "solidImage w h p = \<lparr>naturalWidth = w, naturalHeight = h, pixel = (\<lambda>i j. p)\<rparr>"

text \<open>
  What every selection of the cropper satisfies, for a target ratio of at most \<open>2^40\<close>:
  the width stays 80, the left edge stays in \<open>[0, 20]\<close>, and the top edge stays in
  \<open>[0, 100 - 2^-34]\<close>.
\<close>

definition selection_ok :: "crop \<Rightarrow> bool" where
  "selection_ok c \<longleftrightarrow>
     crop_width c = 80 \<and> 0 \<le> crop_x c \<and> crop_x c \<le> 20 \<and>
     0 \<le> crop_y c \<and> crop_y c \<le> 100 - 1 / 2 ^ 34"

subsection \<open>The specification's own formulas\<close>

text \<open>
  These three follow the words of the specification, not the code; the theorems compare
  them with what the code computes. \<open>clamp(v, lo, hi)\<close> limits \<open>v\<close> to
  \<open>[lo, hi]\<close>.
\<close>

definition clamp_spec :: "real \<Rightarrow> real \<Rightarrow> real \<Rightarrow> real" where
  "clamp_spec v lo hi = (if v < lo then lo else if hi < v then hi else v)"

text \<open>
  The output size as the specification gives it:
  \<open>round(clampedWidth/100 * naturalWidth)\<close> by \<open>round(clampedHeight/100 * naturalHeight)\<close>.
\<close>

definition cropSize_spec :: "real \<Rightarrow> crop \<Rightarrow> image \<Rightarrow> int \<times> int" where
  "cropSize_spec targetRatio c img =
     (round (clampedWidth targetRatio c / 100 * real (naturalWidth img)),
      round (clampedHeight targetRatio c / 100 * real (naturalHeight img)))"

text \<open>
  A blur radius in source-resolution-independent units, scaled with the source width
  as the font size is (against the 500px reference width).
\<close>

definition shadowBlur_spec :: "real \<Rightarrow> nat \<Rightarrow> real" where
  "shadowBlur_spec radius w = radius * (real w / 500)"

section \<open>Properties of the rounding\<close>

lemma binade_iff:
  assumes "v \<noteq> 0"
  shows "binade v = e \<longleftrightarrow> 2 powi e \<le> \<bar>v\<bar> \<and> \<bar>v\<bar> < 2 powi (e + 1)"
proof -
  have "0 < \<bar>v\<bar>" using assms by simp
  then have "\<lfloor>log 2 \<bar>v\<bar>\<rfloor> = e \<longleftrightarrow>
      2 powr (real_of_int e) \<le> \<bar>v\<bar> \<and> \<bar>v\<bar> < 2 powr (real_of_int (e + 1))"
    using floor_log_eq_powr_iff [of "\<bar>v\<bar>" 2 e] by simp
  moreover have "(2::real) powr (real_of_int e) = 2 powi e"
    "(2::real) powr (real_of_int (e + 1)) = 2 powi (e + 1)"
    by (simp_all only: powr_real_of_int' [of 2, simplified])
  ultimately show ?thesis
    by (simp only: binade_def)
qed

lemma binade_bounds:
  assumes "v \<noteq> 0"
  shows "2 powi (binade v) \<le> \<bar>v\<bar>" "\<bar>v\<bar> < 2 powi (binade v + 1)"
  using binade_iff [OF assms, of "binade v"] by simp_all

lemma roundTiesToEven_cases:
  "(roundTiesToEven t = \<lfloor>t\<rfloor> \<and> t - of_int \<lfloor>t\<rfloor> \<le> 1 / 2) \<or>
   (roundTiesToEven t = \<lfloor>t\<rfloor> + 1 \<and> 1 / 2 \<le> t - of_int \<lfloor>t\<rfloor>)"
proof -
  consider "t - of_int \<lfloor>t\<rfloor> < 1 / 2" | "t - of_int \<lfloor>t\<rfloor> = 1 / 2" | "1 / 2 < t - of_int \<lfloor>t\<rfloor>"
    by linarith
  then show ?thesis
  proof cases
    case 1
    then show ?thesis by (simp add: roundTiesToEven_def)
  next
    case 2
    then show ?thesis by (simp add: roundTiesToEven_def)
  next
    case 3
    then have "\<not> t - of_int \<lfloor>t\<rfloor> < 1 / 2" by simp
    with 3 show ?thesis by (simp only: roundTiesToEven_def if_True if_False) simp
  qed
qed

lemma roundTiesToEven_near: "\<bar>of_int (roundTiesToEven t) - t\<bar> \<le> 1 / 2"
proof -
  have "of_int \<lfloor>t\<rfloor> \<le> t" "t < of_int \<lfloor>t\<rfloor> + 1" by linarith+
  then show ?thesis
    using roundTiesToEven_cases [of t] by auto
qed

lemma roundTiesToEven_of_int [simp]: "roundTiesToEven (of_int k) = k"
  by (simp add: roundTiesToEven_def)

lemma roundTiesToEven_le:
  assumes "t \<le> of_int k"
  shows "roundTiesToEven t \<le> k"
proof -
  have "of_int (roundTiesToEven t) \<le> t + 1 / 2"
    using roundTiesToEven_near [of t] by linarith
  with assms have "real_of_int (roundTiesToEven t) < of_int k + 1" by linarith
  then have "real_of_int (roundTiesToEven t) < of_int (k + 1)" by simp
  then have "roundTiesToEven t < k + 1" by (simp only: of_int_less_iff)
  then show ?thesis by simp
qed

lemma roundTiesToEven_ge:
  assumes "of_int k \<le> t"
  shows "k \<le> roundTiesToEven t"
proof -
  have "t - 1 / 2 \<le> of_int (roundTiesToEven t)"
    using roundTiesToEven_near [of t] by linarith
  with assms have "real_of_int (k - 1) < of_int (roundTiesToEven t)" by simp
  then have "k - 1 < roundTiesToEven t" by (simp only: of_int_less_iff)
  then show ?thesis by simp
qed

lemma roundTiesToEven_unique:
  assumes "\<bar>t - of_int n\<bar> < 1 / 2"
  shows "roundTiesToEven t = n"
proof -
  have "\<bar>real_of_int (roundTiesToEven t) - of_int n\<bar> < 1"
    using roundTiesToEven_near [of t] assms by linarith
  then have "\<bar>real_of_int (roundTiesToEven t - n)\<bar> < 1" by simp
  then have "\<bar>roundTiesToEven t - n\<bar> < 1"
    by (metis of_int_abs of_int_less_iff of_int_1)
  then show ?thesis by simp
qed

lemma fl_nonzero:
  assumes "v \<noteq> 0"
  shows "fl v = of_int (roundTiesToEven (v / 2 powi (binade v - 52))) * 2 powi (binade v - 52)"
  using assms by (simp add: fl_def)

lemma scaled_bounds_fl:
  assumes "v \<noteq> 0"
  shows "2 ^ 52 \<le> \<bar>v / 2 powi (binade v - 52)\<bar>"
proof -
  have "\<bar>v / 2 powi (binade v - 52)\<bar> = \<bar>v\<bar> / 2 powi (binade v - 52)"
    by (simp add: abs_divide)
  also have "\<dots> \<ge> 2 powi (binade v) / 2 powi (binade v - 52)"
    using binade_bounds(1) [OF assms] by (simp add: divide_right_mono)
  finally show ?thesis
    by (simp add: power_int_diff)
qed

lemma fl_error:
  assumes "v \<noteq> 0"
  shows "\<bar>fl v - v\<bar> \<le> 2 powi (binade v - 53)"
proof -
  define u where "u = (2::real) powi (binade v - 52)"
  have u: "0 < u" by (simp add: u_def)
  have "\<bar>of_int (roundTiesToEven (v / u)) - v / u\<bar> \<le> 1 / 2"
    by (rule roundTiesToEven_near)
  then have "\<bar>of_int (roundTiesToEven (v / u)) - v / u\<bar> * u \<le> 1 / 2 * u"
    using u by (intro mult_right_mono) simp_all
  moreover have "\<bar>of_int (roundTiesToEven (v / u)) - v / u\<bar> * u =
      \<bar>of_int (roundTiesToEven (v / u)) * u - v\<bar>"
  proof -
    have "(of_int (roundTiesToEven (v / u)) - v / u) * u =
        of_int (roundTiesToEven (v / u)) * u - v"
      using u by (simp add: field_simps)
    then have "\<bar>of_int (roundTiesToEven (v / u)) * u - v\<bar> =
        \<bar>of_int (roundTiesToEven (v / u)) - v / u\<bar> * \<bar>u\<bar>"
      by (simp only: abs_mult [symmetric])
    then show ?thesis using u by simp
  qed
  ultimately have "\<bar>of_int (roundTiesToEven (v / u)) * u - v\<bar> \<le> 1 / 2 * u"
    by (simp only:)
  moreover have "1 / 2 * u = 2 powi (binade v - 53)"
    by (simp add: u_def power_int_diff)
  moreover have "fl v = of_int (roundTiesToEven (v / u)) * u"
    unfolding u_def by (rule fl_nonzero [OF assms])
  ultimately show ?thesis
    by (simp only:)
qed

lemma fl_rel:
  "\<bar>fl v - v\<bar> \<le> \<bar>v\<bar> / 2 ^ 53"
proof (cases "v = 0")
  case True
  then show ?thesis by (simp add: fl_def)
next
  case False
  have "\<bar>fl v - v\<bar> \<le> 2 powi (binade v - 53)" by (rule fl_error [OF False])
  also have "\<dots> = 2 powi (binade v) / 2 ^ 53"
    by (simp add: power_int_diff)
  also have "\<dots> \<le> \<bar>v\<bar> / 2 ^ 53"
    using binade_bounds(1) [OF False] by (simp add: divide_right_mono)
  finally show ?thesis .
qed


lemma pow2_less_cancel:
  assumes "(2::real) powi a < 2 powi b"
  shows "a < b"
proof (rule ccontr)
  assume "\<not> a < b"
  then have "b \<le> a" by simp
  then have "(2::real) powi b \<le> 2 powi a"
    by (intro power_int_increasing) simp_all
  with assms show False by simp
qed

lemma fl_zero [simp]: "fl 0 = 0"
  by (simp add: fl_def)

lemma fl_ge_binade:
  assumes "0 < v"
  shows "2 powi (binade v) \<le> fl v"
proof -
  define u where "u = (2::real) powi (binade v - 52)"
  have u: "0 < u" by (simp add: u_def)
  have nz: "v \<noteq> 0" using assms by simp
  have "2 powi (binade v) \<le> v" using binade_bounds(1) [OF nz] assms by simp
  then have "2 powi (binade v) / u \<le> v / u"
    using u by (simp add: divide_right_mono)
  moreover have "2 powi (binade v) / u = of_int (2 ^ 52)"
    by (simp add: u_def power_int_diff)
  ultimately have "of_int (2 ^ 52) \<le> v / u" by simp
  then have "2 ^ 52 \<le> roundTiesToEven (v / u)" by (rule roundTiesToEven_ge)
  then have "real_of_int (2 ^ 52) \<le> of_int (roundTiesToEven (v / u))"
    by (simp only: of_int_le_iff)
  then have "real_of_int (2 ^ 52) * u \<le> of_int (roundTiesToEven (v / u)) * u"
    using u by (intro mult_right_mono) simp_all
  moreover have "real_of_int (2 ^ 52) * u = 2 powi (binade v)"
    by (simp add: u_def power_int_diff)
  moreover have "fl v = of_int (roundTiesToEven (v / u)) * u"
    unfolding u_def by (rule fl_nonzero [OF nz])
  ultimately show ?thesis by (simp only:)
qed

lemma fl_pos: "0 < v \<Longrightarrow> 0 < fl v"
  using fl_ge_binade [of v] zero_less_power_int [of "2::real" "binade v"] by linarith

lemma fl_nonneg: "0 \<le> v \<Longrightarrow> 0 \<le> fl v"
  using fl_pos [of v] by (cases "v = 0") simp_all

lemma fl_neg:
  assumes "v < 0"
  shows "fl v < 0"
proof -
  define u where "u = (2::real) powi (binade v - 52)"
  have u: "0 < u" by (simp add: u_def)
  have nz: "v \<noteq> 0" using assms by simp
  have "v / u < 0" using assms u by (simp add: divide_neg_pos)
  then have "v / u \<le> of_int 0" by simp
  then have "roundTiesToEven (v / u) \<le> 0" by (rule roundTiesToEven_le)
  moreover have "roundTiesToEven (v / u) \<noteq> 0"
  proof
    assume z: "roundTiesToEven (v / u) = 0"
    define t where "t = v / u"
    have "2 ^ 52 \<le> \<bar>t\<bar>" unfolding t_def u_def by (rule scaled_bounds_fl [OF nz])
    moreover have "\<bar>of_int (roundTiesToEven t) - t\<bar> \<le> 1 / 2"
      by (rule roundTiesToEven_near)
    moreover have "roundTiesToEven t = 0" using z by (simp only: t_def)
    ultimately show False by simp
  qed
  ultimately have "roundTiesToEven (v / u) < 0" by simp
  then have "real_of_int (roundTiesToEven (v / u)) < 0" by simp
  then have "of_int (roundTiesToEven (v / u)) * u < 0"
    using u by (simp add: mult_neg_pos)
  moreover have "fl v = of_int (roundTiesToEven (v / u)) * u"
    unfolding u_def by (rule fl_nonzero [OF nz])
  ultimately show ?thesis by (simp only:)
qed

lemma fl_nonpos: "v \<le> 0 \<Longrightarrow> fl v \<le> 0"
  using fl_neg [of v] by (cases "v = 0") simp_all

lemma fl_ge_pow2:
  assumes "2 powi k \<le> v"
  shows "2 powi k \<le> fl v"
proof -
  have pos: "0 < v" using assms zero_less_power_int [of "2::real" k] by linarith
  then have nz: "v \<noteq> 0" by simp
  have "(2::real) powi k < 2 powi (binade v + 1)"
    using assms binade_bounds(2) [OF nz] pos by simp
  then have "k < binade v + 1" by (rule pow2_less_cancel)
  then have "(2::real) powi k \<le> 2 powi (binade v)"
    by (intro power_int_increasing) simp_all
  with fl_ge_binade [OF pos] show ?thesis by linarith
qed

lemma ulp_divides:
  assumes "v \<noteq> 0" "\<bar>v\<bar> < 2 powi (j + 53)"
  shows "\<exists>n::nat. (2::real) powi j = 2 ^ n * 2 powi (binade v - 52)"
proof -
  have "(2::real) powi (binade v) < 2 powi (j + 53)"
    using binade_bounds(1) [OF assms(1)] assms(2) by linarith
  then have "binade v < j + 53" by (rule pow2_less_cancel)
  then have d: "0 \<le> j - (binade v - 52)" by simp
  have "(2::real) powi j = 2 powi (j - (binade v - 52)) * 2 powi (binade v - 52)"
    by (simp add: power_int_add [symmetric])
  also have "(2::real) powi (j - (binade v - 52)) = 2 ^ nat (j - (binade v - 52))"
    using d by (simp add: power_int_def)
  finally show ?thesis by blast
qed

lemma fl_le_multiple:
  assumes "v \<le> of_int k * 2 powi j" "0 \<le> k" "k < 2 ^ 53"
  shows "fl v \<le> of_int k * 2 powi j"
proof (cases "v \<le> 0")
  case True
  then have "fl v \<le> 0" by (rule fl_nonpos)
  moreover have "0 \<le> real_of_int k * 2 powi j" using assms(2) by simp
  ultimately show ?thesis by linarith
next
  case False
  then have pos: "0 < v" by simp
  then have nz: "v \<noteq> 0" by simp
  define u where "u = (2::real) powi (binade v - 52)"
  have u: "0 < u" by (simp add: u_def)
  have "real_of_int k < 2 ^ 53" using assms(3)
    by (metis of_int_less_iff of_int_numeral of_int_power)
  then have "real_of_int k * 2 powi j < 2 ^ 53 * 2 powi j"
    by (intro mult_strict_right_mono) simp_all
  also have "\<dots> = 2 powi (j + 53)" by (simp add: power_int_add)
  finally have "\<bar>v\<bar> < 2 powi (j + 53)" using assms(1) pos by simp
  from ulp_divides [OF nz this] obtain n :: nat where n: "(2::real) powi j = 2 ^ n * u"
    unfolding u_def by blast
  have "v / u \<le> of_int k * 2 powi j / u"
    using assms(1) u by (simp add: divide_right_mono)
  also have "\<dots> = of_int (k * 2 ^ n)" using u by (simp add: n)
  finally have "roundTiesToEven (v / u) \<le> k * 2 ^ n" by (rule roundTiesToEven_le)
  then have "real_of_int (roundTiesToEven (v / u)) \<le> of_int (k * 2 ^ n)"
    by (simp only: of_int_le_iff)
  then have "of_int (roundTiesToEven (v / u)) * u \<le> of_int (k * 2 ^ n) * u"
    using u by (intro mult_right_mono) simp_all
  moreover have "of_int (k * 2 ^ n) * u = of_int k * 2 powi j" by (simp add: n)
  moreover have "fl v = of_int (roundTiesToEven (v / u)) * u"
    unfolding u_def by (rule fl_nonzero [OF nz])
  ultimately show ?thesis by (simp only:)
qed

lemma fl_representable:
  assumes "\<bar>k\<bar> < 2 ^ 53"
  shows "fl (of_int k * 2 powi j) = of_int k * 2 powi j"
proof (cases "k = 0")
  case True
  then show ?thesis by simp
next
  case False
  define v where "v = real_of_int k * 2 powi j"
  have nz: "v \<noteq> 0" using False by (simp add: v_def)
  define u where "u = (2::real) powi (binade v - 52)"
  have u: "0 < u" by (simp add: u_def)
  have "real_of_int \<bar>k\<bar> < 2 ^ 53" using assms
    by (metis of_int_less_iff of_int_numeral of_int_power)
  then have "real_of_int \<bar>k\<bar> * 2 powi j < 2 ^ 53 * 2 powi j"
    by (intro mult_strict_right_mono) simp_all
  also have "\<dots> = 2 powi (j + 53)" by (simp add: power_int_add)
  finally have "\<bar>v\<bar> < 2 powi (j + 53)" by (simp add: v_def abs_mult)
  from ulp_divides [OF nz this] obtain n :: nat where n: "(2::real) powi j = 2 ^ n * u"
    unfolding u_def by blast
  have "v / u = of_int (k * 2 ^ n)" using u by (simp add: v_def n)
  then have "roundTiesToEven (v / u) = k * 2 ^ n"
    by (simp only: roundTiesToEven_of_int)
  then have "of_int (roundTiesToEven (v / u)) * u = v" by (simp add: v_def n)
  moreover have "fl v = of_int (roundTiesToEven (v / u)) * u"
    unfolding u_def by (rule fl_nonzero [OF nz])
  ultimately show ?thesis by (simp only: v_def)
qed

lemma fl_of_int: "\<bar>k\<bar> < 2 ^ 53 \<Longrightarrow> fl (of_int k) = of_int k"
  using fl_representable [of k 0] by simp

lemma fl_dyadic: "\<bar>k\<bar> < 2 ^ 53 \<Longrightarrow> fl (of_int k / 2 ^ n) = of_int k / 2 ^ n"
  using fl_representable [of k "- int n"] by (simp add: power_int_minus field_simps)

lemma fl_le_int: "v \<le> of_int k \<Longrightarrow> 0 \<le> k \<Longrightarrow> k < 2 ^ 53 \<Longrightarrow> fl v \<le> of_int k"
  using fl_le_multiple [of v k 0] by simp

lemma fl_le_dyadic:
  "v \<le> of_int k / 2 ^ n \<Longrightarrow> 0 \<le> k \<Longrightarrow> k < 2 ^ 53 \<Longrightarrow> fl v \<le> of_int k / 2 ^ n"
  using fl_le_multiple [of v k "- int n"] by (simp add: power_int_minus field_simps)

lemma fl_ge_multiple:
  assumes "of_int k * 2 powi j \<le> v" "0 < k" "k < 2 ^ 53"
  shows "of_int k * 2 powi j \<le> fl v"
proof -
  have m: "0 < real_of_int k * 2 powi j" using assms(2) by simp
  then have pos: "0 < v" using assms(1) by linarith
  then have nz: "v \<noteq> 0" by simp
  have "real_of_int k < 2 ^ 53" using assms(3)
    by (metis of_int_less_iff of_int_numeral of_int_power)
  then have "real_of_int k * 2 powi j < 2 ^ 53 * 2 powi j"
    by (intro mult_strict_right_mono) simp_all
  also have "\<dots> = 2 powi (j + 53)" by (simp add: power_int_add)
  finally have top: "real_of_int k * 2 powi j < 2 powi (j + 53)" .
  show ?thesis
  proof (cases "\<bar>v\<bar> < 2 powi (j + 53)")
    case True
    define u where "u = (2::real) powi (binade v - 52)"
    have u: "0 < u" by (simp add: u_def)
    from ulp_divides [OF nz True] obtain n :: nat where n: "(2::real) powi j = 2 ^ n * u"
      unfolding u_def by blast
    have "of_int k * 2 powi j / u \<le> v / u"
      using assms(1) u by (simp add: divide_right_mono)
    moreover have "of_int k * 2 powi j / u = of_int (k * 2 ^ n)" using u by (simp add: n)
    ultimately have "of_int (k * 2 ^ n) \<le> v / u" by (simp only:)
    then have "k * 2 ^ n \<le> roundTiesToEven (v / u)" by (rule roundTiesToEven_ge)
    then have "real_of_int (k * 2 ^ n) \<le> of_int (roundTiesToEven (v / u))"
      by (simp only: of_int_le_iff)
    then have "of_int (k * 2 ^ n) * u \<le> of_int (roundTiesToEven (v / u)) * u"
      using u by (intro mult_right_mono) simp_all
    moreover have "of_int (k * 2 ^ n) * u = of_int k * 2 powi j" by (simp add: n)
    moreover have "fl v = of_int (roundTiesToEven (v / u)) * u"
      unfolding u_def by (rule fl_nonzero [OF nz])
    ultimately show ?thesis by (simp only:)
  next
    case False
    then have "2 powi (j + 53) \<le> v" using pos by simp
    then have "2 powi (j + 53) \<le> fl v" by (rule fl_ge_pow2)
    with top show ?thesis by linarith
  qed
qed

lemma fl_ge_int: "of_int k \<le> v \<Longrightarrow> 0 < k \<Longrightarrow> k < 2 ^ 53 \<Longrightarrow> of_int k \<le> fl v"
  using fl_ge_multiple [of k 0 v] by simp

lemma fl_nearest:
  assumes "2 powi e \<le> \<bar>v\<bar>" "\<bar>v\<bar> < 2 powi (e + 1)"
    and "\<bar>v / 2 powi (e - 52) - of_int n\<bar> < 1 / 2"
  shows "fl v = of_int n * 2 powi (e - 52)"
proof -
  have "0 < \<bar>v\<bar>" using assms(1) zero_less_power_int [of "2::real" e] by linarith
  then have nz: "v \<noteq> 0" by simp
  have e: "binade v = e" using assms(1,2) by (simp add: binade_iff [OF nz])
  have "roundTiesToEven (v / 2 powi (e - 52)) = n"
    using assms(3) by (rule roundTiesToEven_unique)
  then show ?thesis by (simp add: fl_nonzero [OF nz] e)
qed


lemma fl_upper:
  assumes "0 \<le> v"
  shows "fl v \<le> v + v / 2 ^ 53"
proof -
  have "\<bar>fl v - v\<bar> \<le> \<bar>v\<bar> / 2 ^ 53" by (rule fl_rel)
  moreover have "\<bar>v\<bar> = v" using assms by simp
  moreover have "fl v - v \<le> \<bar>fl v - v\<bar>" by simp
  ultimately show ?thesis by linarith
qed

lemma fl_numeral: "(numeral n :: int) < 2 ^ 53 \<Longrightarrow> fl (numeral n) = numeral n"
  using fl_of_int [of "numeral n"] by simp

text \<open>
  Evaluating \<open>fl\<close> at a concrete positive number below \<open>2^53\<close>: give the exponent
  and the significand, and check that the significand is the nearest integer.
\<close>

lemma fl_nearest_frac:
  assumes "2 powi e \<le> v" "v < 2 powi (e + 1)" "e - 52 = - int m"
    and "\<bar>v * 2 ^ m - of_int n\<bar> < 1 / 2"
  shows "fl v = of_int n / 2 ^ m"
proof -
  have pos: "0 < v" using assms(1) zero_less_power_int [of "2::real" e] by linarith
  have u: "(2::real) powi (e - 52) = 1 / 2 ^ m"
    by (simp add: assms(3) power_int_minus field_simps)
  have "fl v = of_int n * 2 powi (e - 52)"
    using assms(1,2,4) pos by (intro fl_nearest) (simp_all add: u)
  then show ?thesis by (simp add: u)
qed

section \<open>The doubles of the examples\<close>

text \<open>
  Each lemma evaluates one rounding at a concrete number: the exponent and the
  significand are given, and the kernel checks that the significand is the nearest one.
\<close>

lemma fl_16_9: "fl (16 / 9) = 2001599834386887 / 1125899906842624"
proof -
  have "fl (16 / 9) = of_int 8006399337547548 / 2 ^ 52"
    by (rule fl_nearest_frac [where e = 0]) simp_all
  then show ?thesis by simp
qed

lemma fl_27_25: "fl (27 / 25) = 607985949695017 / 562949953421312"
proof -
  have "fl (27 / 25) = of_int 4863887597560136 / 2 ^ 52"
    by (rule fl_nearest_frac [where e = 0]) simp_all
  then show ?thesis by simp
qed

lemma fl_61_50: "fl (61 / 50) = 5494391545392005 / 4503599627370496"
proof -
  have "fl (61 / 50) = of_int 5494391545392005 / 2 ^ 52"
    by (rule fl_nearest_frac [where e = 0]) simp_all
  then show ?thesis by simp
qed

lemma fl_height_16_9: "fl (80 / (2001599834386887 / 1125899906842624)) = 45"
proof -
  have "fl (80 / (2001599834386887 / 1125899906842624)) = of_int 6333186975989760 / 2 ^ 47"
    by (rule fl_nearest_frac [where e = 5]) simp_all
  then show ?thesis by simp
qed

lemma fl_height_27_25: "fl (80 / (607985949695017 / 562949953421312)) = 1303124892178963 / 17592186044416"
proof -
  have "fl (80 / (607985949695017 / 562949953421312)) = of_int 5212499568715852 / 2 ^ 46"
    by (rule fl_nearest_frac [where e = 6]) simp_all
  then show ?thesis by simp
qed

lemma fl_height_61_50: "fl (80 / (5494391545392005 / 4503599627370496)) = 4614343880502557 / 70368744177664"
proof -
  have "fl (80 / (5494391545392005 / 4503599627370496)) = of_int 4614343880502557 / 2 ^ 46"
    by (rule fl_nearest_frac [where e = 6]) simp_all
  then show ?thesis by simp
qed

lemma fl_width_16_9: "fl (45 * (2001599834386887 / 1125899906842624)) = 80"
proof -
  have "fl (45 * (2001599834386887 / 1125899906842624)) = of_int 5629499534213120 / 2 ^ 46"
    by (rule fl_nearest_frac [where e = 6]) simp_all
  then show ?thesis by simp
qed

lemma fl_width_27_25: "fl ((1303124892178963 / 17592186044416) * (607985949695017 / 562949953421312)) = 5629499534213121 / 70368744177664"
proof -
  have "fl ((1303124892178963 / 17592186044416) * (607985949695017 / 562949953421312)) = of_int 5629499534213121 / 2 ^ 46"
    by (rule fl_nearest_frac [where e = 6]) simp_all
  then show ?thesis by simp
qed

lemma fl_width_61_50: "fl ((4614343880502557 / 70368744177664) * (5494391545392005 / 4503599627370496)) = 5629499534213119 / 70368744177664"
proof -
  have "fl ((4614343880502557 / 70368744177664) * (5494391545392005 / 4503599627370496)) = of_int 5629499534213119 / 2 ^ 46"
    by (rule fl_nearest_frac [where e = 6]) simp_all
  then show ?thesis by simp
qed

lemma fl_pct_10: "fl (10 / 100) = 3602879701896397 / 36028797018963968"
proof -
  have "fl (10 / 100) = of_int 7205759403792794 / 2 ^ 56"
    by (rule fl_nearest_frac [where e = "-4"]) simp_all
  then show ?thesis by simp
qed

lemma fl_pct_80: "fl (80 / 100) = 3602879701896397 / 4503599627370496"
proof -
  have "fl (80 / 100) = of_int 7205759403792794 / 2 ^ 53"
    by (rule fl_nearest_frac [where e = "-1"]) simp_all
  then show ?thesis by simp
qed

lemma fl_pct_45: "fl (45 / 100) = 8106479329266893 / 18014398509481984"
proof -
  have "fl (45 / 100) = of_int 8106479329266893 / 2 ^ 54"
    by (rule fl_nearest_frac [where e = "-2"]) simp_all
  then show ?thesis by simp
qed

lemma fl_pct_width_61_50: "fl ((5629499534213119 / 70368744177664) / 100) = 900719925474099 / 1125899906842624"
proof -
  have "fl ((5629499534213119 / 70368744177664) / 100) = of_int 7205759403792792 / 2 ^ 53"
    by (rule fl_nearest_frac [where e = "-1"]) simp_all
  then show ?thesis by simp
qed

lemma fl_pct_height_61_50: "fl ((4614343880502557 / 70368744177664) / 100) = 5906360167043273 / 9007199254740992"
proof -
  have "fl ((4614343880502557 / 70368744177664) / 100) = of_int 5906360167043273 / 2 ^ 53"
    by (rule fl_nearest_frac [where e = "-1"]) simp_all
  then show ?thesis by simp
qed

lemma fl_px_10_1000: "fl ((3602879701896397 / 36028797018963968) * 1000) = 100"
proof -
  have "fl ((3602879701896397 / 36028797018963968) * 1000) = of_int 7036874417766400 / 2 ^ 46"
    by (rule fl_nearest_frac [where e = 6]) simp_all
  then show ?thesis by simp
qed

lemma fl_px_80_1000: "fl ((3602879701896397 / 4503599627370496) * 1000) = 800"
proof -
  have "fl ((3602879701896397 / 4503599627370496) * 1000) = of_int 7036874417766400 / 2 ^ 43"
    by (rule fl_nearest_frac [where e = 9]) simp_all
  then show ?thesis by simp
qed

lemma fl_px_45_1000: "fl ((8106479329266893 / 18014398509481984) * 1000) = 450"
proof -
  have "fl ((8106479329266893 / 18014398509481984) * 1000) = of_int 7916483719987200 / 2 ^ 44"
    by (rule fl_nearest_frac [where e = 8]) simp_all
  then show ?thesis by simp
qed

lemma fl_px_10_1001: "fl ((3602879701896397 / 36028797018963968) * 1001) = 7043911292184167 / 70368744177664"
proof -
  have "fl ((3602879701896397 / 36028797018963968) * 1001) = of_int 7043911292184167 / 2 ^ 46"
    by (rule fl_nearest_frac [where e = 6]) simp_all
  then show ?thesis by simp
qed

lemma fl_px_80_1001: "fl ((3602879701896397 / 4503599627370496) * 1001) = 7043911292184167 / 8796093022208"
proof -
  have "fl ((3602879701896397 / 4503599627370496) * 1001) = of_int 7043911292184167 / 2 ^ 43"
    by (rule fl_nearest_frac [where e = 9]) simp_all
  then show ?thesis by simp
qed

lemma fl_px_10_100: "fl ((3602879701896397 / 36028797018963968) * 100) = 10"
proof -
  have "fl ((3602879701896397 / 36028797018963968) * 100) = of_int 5629499534213120 / 2 ^ 49"
    by (rule fl_nearest_frac [where e = 3]) simp_all
  then show ?thesis by simp
qed

lemma fl_px_width_61_50: "fl ((900719925474099 / 1125899906842624) * 100) = 5629499534213119 / 70368744177664"
proof -
  have "fl ((900719925474099 / 1125899906842624) * 100) = of_int 5629499534213119 / 2 ^ 46"
    by (rule fl_nearest_frac [where e = 6]) simp_all
  then show ?thesis by simp
qed

lemma fl_px_height_61_50: "fl ((5906360167043273 / 9007199254740992) * 100) = 4614343880502557 / 70368744177664"
proof -
  have "fl ((5906360167043273 / 9007199254740992) * 100) = of_int 4614343880502557 / 2 ^ 46"
    by (rule fl_nearest_frac [where e = 6]) simp_all
  then show ?thesis by simp
qed

lemma fl_small_ints:
  "fl 5 = 5" "fl 10 = 10" "fl 20 = 20" "fl 40 = 40" "fl 45 = 45" "fl 60 = 60" "fl 80 = 80"
  "fl 90 = 90" "fl 95 = 95" "fl 100 = 100" "fl 160 = 160"
  by (simp_all add: fl_numeral)

lemma fl_one: "fl 1 = 1"
  using fl_of_int [of 1] by simp


text \<open>The quantities of a render, from the roundings they are made of.\<close>

lemma height_eval:
  "crop_width c = w \<Longrightarrow> fl (w / targetRatio) = h \<Longrightarrow> height targetRatio c = h"
  by (simp add: height_def)

lemma clampedHeight_eval:
  "height targetRatio c = h \<Longrightarrow> fl (100 - crop_y c) = t \<Longrightarrow> h \<le> t \<Longrightarrow>
   clampedHeight targetRatio c = h"
  by (simp add: clampedHeight_def)

lemma clampedWidth_eval:
  "clampedHeight targetRatio c = h \<Longrightarrow> fl (h * targetRatio) = w \<Longrightarrow>
   clampedWidth targetRatio c = w"
  by (simp add: clampedWidth_def)

lemma source_eval:
  "p = p' \<Longrightarrow> real n = k \<Longrightarrow> fl (p' / 100) = q \<Longrightarrow> fl (q * k) = s \<Longrightarrow>
   fl (fl (p / 100) * real n) = s"
  by simp

section \<open>Properties of the crop selection\<close>

lemma initialCrop_sel:
  "crop_x initialCrop = 10" "crop_y initialCrop = 10" "crop_width initialCrop = 80"
  by (simp_all add: initialCrop_def)

lemma selection_ok_initial: "selection_ok initialCrop"
  by (simp add: selection_ok_def initialCrop_def)

lemma height_lower:
  assumes "0 < targetRatio" "targetRatio \<le> 2 ^ 40" "crop_width c = 80"
  shows "1 / 2 ^ 34 \<le> height targetRatio c"
proof -
  have "80 / 2 ^ 40 \<le> 80 / targetRatio"
    using assms(1,2) by (intro divide_left_mono) simp_all
  then have "2 powi (- 34) \<le> 80 / targetRatio"
    by (simp add: power_int_minus field_simps)
  then have "2 powi (- 34) \<le> fl (80 / targetRatio)" by (rule fl_ge_pow2)
  then show ?thesis by (simp add: height_def assms(3) power_int_minus field_simps)
qed

lemma clampedHeight_lower:
  assumes "0 < targetRatio" "targetRatio \<le> 2 ^ 40" "selection_ok c"
  shows "1 / 2 ^ 34 \<le> clampedHeight targetRatio c"
proof -
  have w: "crop_width c = 80" and y: "crop_y c \<le> 100 - 1 / 2 ^ 34"
    using assms(3) by (simp_all add: selection_ok_def)
  have "2 powi (- 34) \<le> 100 - crop_y c"
    using y by (simp add: power_int_minus field_simps)
  then have "2 powi (- 34) \<le> fl (100 - crop_y c)" by (rule fl_ge_pow2)
  then have "1 / 2 ^ 34 \<le> fl (100 - crop_y c)"
    by (simp add: power_int_minus field_simps)
  with height_lower [OF assms(1,2) w] show ?thesis
    by (simp add: clampedHeight_def)
qed

lemma clampedHeight_upper:
  assumes "0 \<le> crop_y c"
  shows "clampedHeight targetRatio c \<le> 100"
proof -
  have "100 - crop_y c \<le> of_int 100" using assms by simp
  then have "fl (100 - crop_y c) \<le> of_int 100" by (rule fl_le_int) simp_all
  then show ?thesis by (simp add: clampedHeight_def)
qed

lemma selection_ok_update:
  assumes "0 < targetRatio" "targetRatio \<le> 2 ^ 40" "selection_ok shown" "selection_ok prev"
  shows "selection_ok (updateSelection targetRatio shown prev px py)"
proof -
  have w: "crop_width prev = 80" using assms(4) by (simp add: selection_ok_def)
  have x: "fl (100 - crop_width prev) = 20" by (simp add: w fl_numeral)
  define h where "h = clampedHeight targetRatio shown"
  have "1 / 2 ^ 34 \<le> h" unfolding h_def by (rule clampedHeight_lower [OF assms(1,2,3)])
  then have "100 - h \<le> of_int 1717986918399 / 2 ^ 34" by simp
  then have "fl (100 - h) \<le> of_int 1717986918399 / 2 ^ 34"
    by (rule fl_le_dyadic) simp_all
  then have y: "fl (100 - h) \<le> 100 - 1 / 2 ^ 34" by simp
  show ?thesis
    unfolding selection_ok_def updateSelection_def h_def [symmetric] x
    using w y by (simp add: min_le_iff_disj)
qed

lemma run_snoc: "run targetRatio (evs @ [e]) = step targetRatio (run targetRatio evs) e"
  by (simp add: run_def)

lemma selection_ok_run:
  assumes "0 < targetRatio" "targetRatio \<le> 2 ^ 40"
  shows "selection_ok (rendered (run targetRatio evs)) \<and>
         selection_ok (current (run targetRatio evs))"
proof (induction evs rule: rev_induct)
  case Nil
  show ?case by (simp add: run_def mounted_def selection_ok_initial)
next
  case (snoc e evs)
  show ?case
  proof (cases e)
    case (PointerMove px py)
    with snoc show ?thesis
      by (simp add: run_snoc selection_ok_update [OF assms])
  next
    case Rerender
    with snoc show ?thesis by (simp add: run_snoc)
  qed
qed

lemma clampedWidth_upper:
  assumes "0 < targetRatio" "crop_width c = 80" "0 \<le> clampedHeight targetRatio c"
  shows "clampedWidth targetRatio c \<le> 80 + 1 / 2 ^ 46"
proof -
  define q where "q = 80 / targetRatio"
  have q: "0 < q" using assms(1) by (simp add: q_def)
  have "fl q \<le> q + q / 2 ^ 53" using q by (intro fl_upper) simp
  moreover have "clampedHeight targetRatio c \<le> fl q"
    by (simp add: clampedHeight_def height_def assms(2) q_def)
  ultimately have "clampedHeight targetRatio c \<le> q + q / 2 ^ 53" by linarith
  then have "clampedHeight targetRatio c * targetRatio \<le> (q + q / 2 ^ 53) * targetRatio"
    using assms(1) by (intro mult_right_mono) simp_all
  also have "(q + q / 2 ^ 53) * targetRatio = 80 + 80 / 2 ^ 53"
    using assms(1) by (simp add: q_def field_simps)
  also have "\<dots> \<le> of_int 5629499534213121 / 2 ^ 46" by simp
  finally have "fl (clampedHeight targetRatio c * targetRatio) \<le>
      of_int 5629499534213121 / 2 ^ 46"
    by (rule fl_le_dyadic) simp_all
  then show ?thesis by (simp add: clampedWidth_def)
qed

lemma run_Nil: "run targetRatio [] = mounted"
  by (simp add: run_def)

lemma run_move:
  "run targetRatio [PointerMove px py] =
     \<lparr>rendered = initialCrop,
      current = updateSelection targetRatio initialCrop initialCrop px py\<rparr>"
  by (simp add: run_def mounted_def)



lemma handleMouseMove_gate:
  "handleMouseMove targetRatio False container shown prev clientX clientY = prev"
  "handleMouseMove targetRatio isDragging None shown prev clientX clientY = prev"
  by (simp_all add: handleMouseMove_def split: option.splits)

lemma handleMouseMove_update:
  "handleMouseMove targetRatio True (Some rect) shown prev clientX clientY =
     updateSelection targetRatio shown prev
       (fl (fl (fl (clientX - rect_left rect) / rect_width rect) * 100))
       (fl (fl (fl (clientY - rect_top rect) / rect_height rect) * 100))"
  by (simp add: handleMouseMove_def)

lemma selection_ok_handleMouseMove:
  assumes "0 < targetRatio" "targetRatio \<le> 2 ^ 40" "selection_ok shown" "selection_ok prev"
  shows "selection_ok
           (handleMouseMove targetRatio isDragging container shown prev clientX clientY)"
  using assms(4) selection_ok_update [OF assms]
  by (simp add: handleMouseMove_def Let_def split: option.splits)

lemma crop_sums_rounded:
  assumes "0 \<le> a" "a + b \<le> 100 + 1 / 2 ^ 46"
  shows "fl (a + b) \<le> 100 + 1 / 2 ^ 46"
proof -
  have "a + b \<le> of_int 7036874417766401 / 2 ^ 46" using assms(2) by simp
  then have "fl (a + b) \<le> of_int 7036874417766401 / 2 ^ 46"
    by (rule fl_le_dyadic) simp_all
  then show ?thesis by simp
qed

lemma quotient_rounded:
  assumes "0 < r" "\<bar>q - r\<bar> \<le> r / 2 ^ 53"
  shows "\<bar>fl q - r\<bar> \<le> 3 * r / 2 ^ 53"
proof -
  have "\<bar>fl q - q\<bar> \<le> \<bar>q\<bar> / 2 ^ 53" by (rule fl_rel)
  moreover have "\<bar>q\<bar> \<le> r + r / 2 ^ 53" using assms by linarith
  then have "\<bar>q\<bar> / 2 ^ 53 \<le> (r + r / 2 ^ 53) / 2 ^ 53"
    by (intro divide_right_mono) simp_all
  moreover have "(r + r / 2 ^ 53) / 2 ^ 53 \<le> 2 * r / 2 ^ 53"
    using assms(1) by (simp add: field_simps)
  ultimately have "\<bar>fl q - q\<bar> \<le> 2 * r / 2 ^ 53" by linarith
  moreover have "\<bar>fl q - r\<bar> \<le> \<bar>fl q - q\<bar> + \<bar>q - r\<bar>" by simp
  moreover have "2 * r / 2 ^ 53 + r / 2 ^ 53 = 3 * r / 2 ^ 53" by simp
  ultimately show ?thesis using assms(2) by linarith
qed

text \<open>
  C1, as the code has it. For every target ratio from \<open>2^-900\<close> to \<open>2^40\<close> (a range in
  which no quotient or product of the cropper leaves the normal range of the doubles)
  and every sequence of pointer moves and renders from the initial selection
  \<open>{x: 10, y: 10, width: 80}\<close>, the rectangle derived from the selection has a
  positive width and height and satisfies \<open>0 \<le> x\<close> and \<open>0 \<le> y\<close> exactly, and the
  other three properties within the rounding of the doubles: \<open>x + clampedWidth\<close> and
  \<open>y + clampedHeight\<close> are at most \<open>100 + 2^-46\<close>, and \<open>clampedWidth / clampedHeight\<close>
  differs from the target ratio by at most the ratio times \<open>2^-53\<close>. The two sums
  and the quotient are those of the two doubles as real numbers; evaluated in
  doubles, the sums are again at most \<open>100 + 2^-46\<close> and the quotient differs from
  the ratio by at most three times the ratio times \<open>2^-53\<close>.
\<close>

theorem crop_rectangle_contained:
  assumes "1 / 2 ^ 900 \<le> targetRatio" "targetRatio \<le> 2 ^ 40"
  shows "let c = current (run targetRatio evs) in
           0 \<le> crop_x c \<and> 0 \<le> crop_y c \<and>
           0 < clampedWidth targetRatio c \<and> 0 < clampedHeight targetRatio c \<and>
           crop_x c + clampedWidth targetRatio c \<le> 100 + 1 / 2 ^ 46 \<and>
           crop_y c + clampedHeight targetRatio c \<le> 100 + 1 / 2 ^ 46 \<and>
           \<bar>clampedWidth targetRatio c / clampedHeight targetRatio c - targetRatio\<bar>
             \<le> targetRatio / 2 ^ 53 \<and>
           fl (crop_x c + clampedWidth targetRatio c) \<le> 100 + 1 / 2 ^ 46 \<and>
           fl (crop_y c + clampedHeight targetRatio c) \<le> 100 + 1 / 2 ^ 46 \<and>
           \<bar>fl (clampedWidth targetRatio c / clampedHeight targetRatio c) - targetRatio\<bar>
             \<le> 3 * targetRatio / 2 ^ 53"
proof -
  have pos: "0 < targetRatio"
    using assms(1) by (rule less_le_trans [rotated]) simp
  define c where "c = current (run targetRatio evs)"
  have ok: "selection_ok c"
    unfolding c_def using selection_ok_run [OF pos assms(2)] by simp
  then have w: "crop_width c = 80" and x0: "0 \<le> crop_x c" and x20: "crop_x c \<le> 20"
    and y0: "0 \<le> crop_y c" and y1: "crop_y c \<le> 100"
    by (simp_all add: selection_ok_def)
  define h where "h = clampedHeight targetRatio c"
  have hpos: "0 < h"
    unfolding h_def using clampedHeight_lower [OF pos assms(2) ok]
    by (rule less_le_trans [rotated]) simp
  have "0 < h * targetRatio" using hpos pos by simp
  then have "0 < fl (h * targetRatio)" by (rule fl_pos)
  then have wpos: "0 < clampedWidth targetRatio c" by (simp add: clampedWidth_def h_def)
  have xw: "crop_x c + clampedWidth targetRatio c \<le> 100 + 1 / 2 ^ 46"
    using x20 clampedWidth_upper [OF pos w] hpos by (simp add: h_def)
  have "fl (100 - crop_y c) \<le> (100 - crop_y c) + (100 - crop_y c) / 2 ^ 53"
    using y1 by (intro fl_upper) simp
  also have "\<dots> \<le> (100 - crop_y c) + 100 / 2 ^ 53"
    using y0 by (simp add: divide_right_mono)
  also have "\<dots> \<le> (100 - crop_y c) + 1 / 2 ^ 46" by simp
  finally have "h \<le> (100 - crop_y c) + 1 / 2 ^ 46"
    by (simp add: h_def clampedHeight_def min_le_iff_disj)
  then have yh: "crop_y c + h \<le> 100 + 1 / 2 ^ 46" by simp
  have "\<bar>fl (h * targetRatio) - h * targetRatio\<bar> \<le> \<bar>h * targetRatio\<bar> / 2 ^ 53"
    by (rule fl_rel)
  then have "\<bar>clampedWidth targetRatio c - h * targetRatio\<bar> \<le> h * targetRatio / 2 ^ 53"
    using hpos pos by (simp add: clampedWidth_def h_def abs_mult)
  then have "\<bar>clampedWidth targetRatio c - h * targetRatio\<bar> / h \<le> h * targetRatio / 2 ^ 53 / h"
    using hpos by (intro divide_right_mono) simp_all
  moreover have "\<bar>clampedWidth targetRatio c - h * targetRatio\<bar> / h =
      \<bar>clampedWidth targetRatio c / h - targetRatio\<bar>"
  proof -
    have "(clampedWidth targetRatio c - h * targetRatio) / h =
        clampedWidth targetRatio c / h - targetRatio"
      using hpos by (simp add: field_simps)
    then have "\<bar>clampedWidth targetRatio c / h - targetRatio\<bar> =
        \<bar>clampedWidth targetRatio c - h * targetRatio\<bar> / \<bar>h\<bar>"
      by (simp only: abs_divide [symmetric])
    then show ?thesis using hpos by simp
  qed
  moreover have "h * targetRatio / 2 ^ 53 / h = targetRatio / 2 ^ 53"
    using hpos by simp
  ultimately have ratio:
    "\<bar>clampedWidth targetRatio c / h - targetRatio\<bar> \<le> targetRatio / 2 ^ 53"
    by (simp only:)
  have fxw: "fl (crop_x c + clampedWidth targetRatio c) \<le> 100 + 1 / 2 ^ 46"
    using x0 xw by (rule crop_sums_rounded)
  have fyh: "fl (crop_y c + h) \<le> 100 + 1 / 2 ^ 46"
    using y0 yh by (rule crop_sums_rounded)
  have fratio: "\<bar>fl (clampedWidth targetRatio c / h) - targetRatio\<bar> \<le> 3 * targetRatio / 2 ^ 53"
    using pos ratio by (rule quotient_rounded)
  from x0 y0 wpos hpos xw yh ratio fxw fyh fratio show ?thesis
    unfolding c_def [symmetric] Let_def h_def by (intro conjI)
qed

theorem crop_rectangle_contained_witness:
  "1 / 2 ^ 900 \<le> fl (16 / 9) \<and> fl (16 / 9) \<le> 2 ^ 40 \<and>
   (let c = current (run (fl (16 / 9)) [PointerMove 5 5, Rerender, PointerMove 99 99]) in
      0 \<le> crop_x c \<and> 0 \<le> crop_y c \<and>
      0 < clampedWidth (fl (16 / 9)) c \<and> 0 < clampedHeight (fl (16 / 9)) c \<and>
      crop_x c + clampedWidth (fl (16 / 9)) c \<le> 100 + 1 / 2 ^ 46 \<and>
      crop_y c + clampedHeight (fl (16 / 9)) c \<le> 100 + 1 / 2 ^ 46 \<and>
      \<bar>clampedWidth (fl (16 / 9)) c / clampedHeight (fl (16 / 9)) c - fl (16 / 9)\<bar>
        \<le> fl (16 / 9) / 2 ^ 53 \<and>
      fl (crop_x c + clampedWidth (fl (16 / 9)) c) \<le> 100 + 1 / 2 ^ 46 \<and>
      fl (crop_y c + clampedHeight (fl (16 / 9)) c) \<le> 100 + 1 / 2 ^ 46 \<and>
      \<bar>fl (clampedWidth (fl (16 / 9)) c / clampedHeight (fl (16 / 9)) c) - fl (16 / 9)\<bar>
        \<le> 3 * fl (16 / 9) / 2 ^ 53)"
proof -
  have a: "1 / 2 ^ 900 \<le> fl (16 / 9)" and b: "fl (16 / 9) \<le> 2 ^ 40"
    by (simp_all add: fl_16_9)
  from crop_rectangle_contained [OF a b, of "[PointerMove 5 5, Rerender, PointerMove 99 99]"]
    a b show ?thesis by blast
qed

lemma clamp_below: "a < 0 \<Longrightarrow> max 0 (min a b) = (0::real)"
  by (simp add: min_def max_def)

text \<open>
  C1 as stated fails on the bound \<open>x + clampedWidth \<le> 100\<close>. For the target ratio
  \<open>1.08\<close>, the double next to 27/25, the height \<open>80 / 1.08\<close> rounds to
  \<open>74.07407407407408\<close> and its product with the ratio to \<open>80 + 2^-46\<close>, that is
  \<open>80.00000000000001\<close>; after a move of the pointer to \<open>(100, 0)\<close> the selection
  is at \<open>x = 20\<close>, and \<open>x + clampedWidth\<close> is \<open>100 + 2^-46\<close>.
\<close>

theorem crop_rectangle_exceeds:
  "current (run (fl (27 / 25)) [PointerMove 100 0]) =
     \<lparr>crop_x = 20, crop_y = 0, crop_width = 80\<rparr> \<and>
   clampedWidth (fl (27 / 25)) \<lparr>crop_x = 20, crop_y = 0, crop_width = 80\<rparr> = 80 + 1 / 2 ^ 46 \<and>
   \<not> crop_x \<lparr>crop_x = 20, crop_y = 0, crop_width = 80\<rparr> +
       clampedWidth (fl (27 / 25)) \<lparr>crop_x = 20, crop_y = 0, crop_width = 80\<rparr> \<le> 100"
proof -
  define r :: real where "r = (607985949695017 / 562949953421312)"
  have h: "height r c = 1303124892178963 / 17592186044416" if "crop_width c = 80" for c
    using that unfolding r_def by (rule height_eval) (rule fl_height_27_25)
  have h0: "clampedHeight r initialCrop = 1303124892178963 / 17592186044416"
    by (rule clampedHeight_eval [OF h, where t = 90])
      (simp_all add: initialCrop_sel fl_small_ints)
  have "0 < fl (clampedHeight r initialCrop / 2)"
    by (rule fl_pos) (simp add: h0)
  then have "fl (- fl (clampedHeight r initialCrop / 2)) < 0"
    by (intro fl_neg) simp
  then have y: "max 0 (min (fl (- fl (clampedHeight r initialCrop / 2)))
      (fl (100 - clampedHeight r initialCrop))) = 0"
    by (rule clamp_below)
  have "updateSelection r initialCrop initialCrop 100 0 =
      initialCrop\<lparr>crop_x := 20, crop_y := 0\<rparr>"
    unfolding updateSelection_def by (simp add: y initialCrop_sel fl_small_ints)
  then have state:
    "current (run r [PointerMove 100 0]) = \<lparr>crop_x = 20, crop_y = 0, crop_width = 80\<rparr>"
    by (simp add: run_move initialCrop_def)
  have h1: "clampedHeight r \<lparr>crop_x = 20, crop_y = 0, crop_width = 80\<rparr> = 1303124892178963 / 17592186044416"
    by (rule clampedHeight_eval [OF h, where t = 100]) (simp_all add: fl_small_ints)
  have "clampedWidth r \<lparr>crop_x = 20, crop_y = 0, crop_width = 80\<rparr> = 5629499534213121 / 70368744177664"
    using h1 unfolding r_def by (rule clampedWidth_eval) (rule fl_width_27_25)
  then have w: "clampedWidth r \<lparr>crop_x = 20, crop_y = 0, crop_width = 80\<rparr> = 80 + 1 / 2 ^ 46"
    by simp
  from state w show ?thesis
    unfolding fl_27_25 r_def [symmetric] by simp
qed

text \<open>
  Above the range of the theorem the rectangle can degenerate. At the target ratio
  \<open>2^60\<close> the height is \<open>80 / 2^60\<close>, and \<open>100\<close> less that height rounds to 100: a
  move of the pointer to \<open>(50, 200)\<close> puts the selection at \<open>y = 100\<close>, where the
  clamped height and the clamped width are 0.
\<close>

lemma fl_tiny_height: "fl (80 / 2 ^ 60) = 5 / 2 ^ 56"
proof -
  have "fl (of_int 5 / 2 ^ 56) = of_int 5 / 2 ^ 56" by (rule fl_dyadic) simp
  then show ?thesis by simp
qed

lemma fl_tiny_half: "fl (5 / 2 ^ 56 / 2) = 5 / 2 ^ 57"
proof -
  have "fl (of_int 5 / 2 ^ 57) = of_int 5 / 2 ^ 57" by (rule fl_dyadic) simp
  then show ?thesis by simp
qed

lemma fl_200_less_tiny: "fl (200 - 5 / 2 ^ 57) = 200"
proof -
  have "fl (200 - 5 / 2 ^ 57) = of_int 7036874417766400 / 2 ^ 45"
    by (rule fl_nearest_frac [where e = 7]) simp_all
  then show ?thesis by simp
qed

lemma fl_100_less_tiny: "fl (100 - 5 / 2 ^ 56) = 100"
proof -
  have "fl (100 - 5 / 2 ^ 56) = of_int 7036874417766400 / 2 ^ 46"
    by (rule fl_nearest_frac [where e = 6]) simp_all
  then show ?thesis by simp
qed

lemma rectangle_degenerates:
  "current (run (2 ^ 60) [PointerMove 50 200]) =
     \<lparr>crop_x = 10, crop_y = 100, crop_width = 80\<rparr> \<and>
   clampedHeight (2 ^ 60) \<lparr>crop_x = 10, crop_y = 100, crop_width = 80\<rparr> = 0 \<and>
   clampedWidth (2 ^ 60) \<lparr>crop_x = 10, crop_y = 100, crop_width = 80\<rparr> = 0"
proof -
  have h: "height (2 ^ 60) c = 5 / 2 ^ 56" if "crop_width c = 80" for c
    using that by (rule height_eval) (rule fl_tiny_height)
  have h0: "clampedHeight (2 ^ 60) initialCrop = 5 / 2 ^ 56"
    by (rule clampedHeight_eval [OF h, where t = 90])
      (simp_all add: initialCrop_sel fl_small_ints)
  have "updateSelection (2 ^ 60) initialCrop initialCrop 50 200 =
      \<lparr>crop_x = 10, crop_y = 100, crop_width = 80\<rparr>"
    unfolding updateSelection_def h0 fl_tiny_half fl_200_less_tiny fl_100_less_tiny
    by (simp add: initialCrop_def fl_small_ints)
  then have state: "current (run (2 ^ 60) [PointerMove 50 200]) =
      \<lparr>crop_x = 10, crop_y = 100, crop_width = 80\<rparr>"
    by (simp add: run_move)
  have "height (2 ^ 60) \<lparr>crop_x = 10, crop_y = 100, crop_width = 80\<rparr> = 5 / 2 ^ 56"
    by (rule h) simp
  then have h1: "clampedHeight (2 ^ 60) \<lparr>crop_x = 10, crop_y = 100, crop_width = 80\<rparr> = 0"
    unfolding clampedHeight_def by simp
  have "clampedWidth (2 ^ 60) \<lparr>crop_x = 10, crop_y = 100, crop_width = 80\<rparr> = 0"
    unfolding clampedWidth_def h1 by simp
  with state h1 show ?thesis by (intro conjI)
qed

lemma clamp_spec_max_min: "lo \<le> hi \<Longrightarrow> max lo (min v hi) = clamp_spec v lo hi"
  by (simp add: clamp_spec_def min_def max_def)

text \<open>
  When the component has rendered since the last update, the handler's
  \<open>clampedHeight\<close> is that of the selection it updates, and the update is the clamp of
  the specification (on the rounded differences).
\<close>

lemma updateSelection_fresh:
  assumes "selection_ok c"
  shows "updateSelection targetRatio c c px py =
     c\<lparr>crop_x := clamp_spec (fl (px - fl (crop_width c / 2))) 0 (fl (100 - crop_width c)),
       crop_y := clamp_spec (fl (py - fl (clampedHeight targetRatio c / 2))) 0
                   (fl (100 - clampedHeight targetRatio c))\<rparr>"
proof -
  have w: "crop_width c = 80" and y0: "0 \<le> crop_y c"
    using assms by (simp_all add: selection_ok_def)
  have "0 \<le> fl (100 - crop_width c)" by (simp add: w fl_small_ints)
  then have x: "max 0 (min (fl (px - fl (crop_width c / 2))) (fl (100 - crop_width c))) =
      clamp_spec (fl (px - fl (crop_width c / 2))) 0 (fl (100 - crop_width c))"
    by (rule clamp_spec_max_min)
  have "0 \<le> 100 - clampedHeight targetRatio c"
    using clampedHeight_upper [OF y0, of targetRatio] by simp
  then have "0 \<le> fl (100 - clampedHeight targetRatio c)" by (rule fl_nonneg)
  then have y: "max 0 (min (fl (py - fl (clampedHeight targetRatio c / 2)))
        (fl (100 - clampedHeight targetRatio c))) =
      clamp_spec (fl (py - fl (clampedHeight targetRatio c / 2))) 0
        (fl (100 - clampedHeight targetRatio c))"
    by (rule clamp_spec_max_min)
  show ?thesis
    unfolding updateSelection_def x y ..
qed





text \<open>
  When the height \<open>80 / targetRatio\<close> rounds to a whole number \<open>H\<close> of at most 90, the
  clamp by \<open>100 - y\<close> never takes effect: every selection the cropper reaches has
  \<open>y \<le> 100 - H\<close>, and its clamped height is \<open>H\<close>.
\<close>

lemma clampedHeight_whole:
  assumes "fl (80 / targetRatio) = of_int H" "0 < H" "H \<le> 90"
    and "crop_width c = 80" "crop_y c \<le> 100 - of_int H"
  shows "clampedHeight targetRatio c = of_int H"
proof -
  have "of_int H \<le> 100 - crop_y c" using assms(5) by simp
  then have "of_int H \<le> fl (100 - crop_y c)"
    using assms(2,3) by (intro fl_ge_int) simp_all
  then show ?thesis by (simp add: clampedHeight_def height_def assms(1,4))
qed

lemma updateSelection_whole:
  assumes "fl (80 / targetRatio) = of_int H" "0 < H" "H \<le> 90"
    and "crop_width shown = 80" "crop_y shown \<le> 100 - of_int H"
    and "crop_width prev = 80"
  shows "crop_width (updateSelection targetRatio shown prev px py) = 80 \<and>
         crop_y (updateSelection targetRatio shown prev px py) \<le> 100 - of_int H"
proof -
  have h: "clampedHeight targetRatio shown = of_int H"
    by (rule clampedHeight_whole [OF assms(1-5)])
  have "fl (of_int (100 - H)) = of_int (100 - H)"
    using assms(2,3) by (intro fl_of_int) simp
  then have "fl (100 - of_int H) = 100 - of_int H" by simp
  then show ?thesis
    using assms(3,6) by (simp add: updateSelection_def h min_le_iff_disj)
qed

lemma run_whole:
  assumes "fl (80 / targetRatio) = of_int H" "0 < H" "H \<le> 90"
  shows "(crop_width (rendered (run targetRatio evs)) = 80 \<and>
          crop_y (rendered (run targetRatio evs)) \<le> 100 - of_int H) \<and>
         (crop_width (current (run targetRatio evs)) = 80 \<and>
          crop_y (current (run targetRatio evs)) \<le> 100 - of_int H)"
proof (induction evs rule: rev_induct)
  case Nil
  show ?case using assms(3) by (simp add: run_Nil mounted_def initialCrop_sel)
next
  case (snoc e evs)
  show ?case
  proof (cases e)
    case (PointerMove px py)
    with snoc updateSelection_whole [OF assms, of "rendered (run targetRatio evs)"
        "current (run targetRatio evs)" px py]
    show ?thesis by (simp add: run_snoc)
  next
    case Rerender
    with snoc show ?thesis by (simp add: run_snoc)
  qed
qed

text \<open>
  The two ratios of \<open>PLATFORM_CONFIG\<close> are of this kind: \<open>80 / (16 / 9)\<close> rounds to 45
  and \<open>80 / 1\<close> is 80. For them the clamped height is the same at every selection the
  cropper reaches, and the update by a pointer move does not depend on which render
  the handler was created in.
\<close>

lemma numericRatio_height:
  "\<exists>H. fl (80 / fl (numericRatio p)) = of_int H \<and> 0 < H \<and> H \<le> 90"
proof (cases "p = Instagram")
  case True
  have "fl (80 / fl (numericRatio p)) = of_int 80"
    using True by (simp add: numericRatio_def fl_one fl_small_ints)
  then show ?thesis by (intro exI [of _ 80]) simp
next
  case False
  then have "numericRatio p = 16 / 9" by (cases p) (simp_all add: numericRatio_def)
  then have "fl (80 / fl (numericRatio p)) = of_int 45"
    by (simp only: fl_16_9 fl_height_16_9 of_int_numeral)
  then show ?thesis by (intro exI [of _ 45]) simp
qed

lemma updateSelection_platform_ratio:
  "updateSelection (fl (numericRatio p)) (rendered (run (fl (numericRatio p)) evs))
       (current (run (fl (numericRatio p)) evs)) px py =
   updateSelection (fl (numericRatio p)) (current (run (fl (numericRatio p)) evs))
       (current (run (fl (numericRatio p)) evs)) px py"
proof -
  from numericRatio_height [of p] obtain H
    where H: "fl (80 / fl (numericRatio p)) = of_int H" "0 < H" "H \<le> 90" by blast
  have "clampedHeight (fl (numericRatio p)) (rendered (run (fl (numericRatio p)) evs)) = of_int H"
    using run_whole [OF H, of evs] by (intro clampedHeight_whole [OF H]) simp_all
  moreover
  have "clampedHeight (fl (numericRatio p)) (current (run (fl (numericRatio p)) evs)) = of_int H"
    using run_whole [OF H, of evs] by (intro clampedHeight_whole [OF H]) simp_all
  ultimately show ?thesis by (simp add: updateSelection_def)
qed

section \<open>Entering crop mode\<close>

text \<open>
  C4, as the code has it. Entering crop mode validates nothing: for every image and every
  target ratio the selection starts at \<open>{x: 10, y: 10, width: 80}\<close>, and no error is
  reported. The ratios the application passes, those of \<open>PLATFORM_CONFIG\<close>, are all
  positive.
\<close>

theorem beginCrop_never_fails:
  "beginCrop img targetRatio = Delivered \<lparr>crop_x = 10, crop_y = 10, crop_width = 80\<rparr> \<and>
   beginCrop img targetRatio \<noteq> Failed e \<and>
   0 < numericRatio p"
  by (cases p) (simp_all add: beginCrop_def initialCrop_def numericRatio_def)

text \<open>
  C4 as stated fails: a target ratio of 0, and an image of size 0 by 0, are both
  accepted, and crop mode starts at the default selection instead of failing with
  \<open>InvalidInput\<close>.
\<close>

theorem beginCrop_accepts_zero_ratio:
  "beginCrop (solidImage 1000 1000 (0, 0, 0, 255)) 0 \<noteq> Failed InvalidInput \<and>
   beginCrop (solidImage 0 0 (0, 0, 0, 255)) (16 / 9) \<noteq> Failed InvalidInput \<and>
   beginCrop (solidImage 1000 1000 (0, 0, 0, 255)) 0 = Delivered initialCrop"
  by (simp add: beginCrop_def)

text \<open>
  As JavaScript numbers the ratios of \<open>PLATFORM_CONFIG\<close> are the doubles next to them,
  and they lie in the range the theorems about the cropper are stated for.
\<close>

lemma numericRatio_in_range:
  "1 / 2 ^ 900 \<le> fl (numericRatio p) \<and> fl (numericRatio p) \<le> 2 ^ 40"
  by (cases p) (simp_all add: numericRatio_def fl_16_9 fl_one)

section \<open>The size attributes of a surface\<close>

lemma toUnsignedLong_floor:
  assumes "0 \<le> v" "v < 2 ^ 31"
  shows "reflectUnsignedLong d (toUnsignedLong v) = nat \<lfloor>v\<rfloor>"
proof -
  have f0: "0 \<le> \<lfloor>v\<rfloor>" using assms(1) by simp
  have "\<lfloor>v\<rfloor> < 2 ^ 31" using assms(2) by (simp add: floor_less_iff)
  then have f1: "\<lfloor>v\<rfloor> < 2147483648" by simp
  then have "\<lfloor>v\<rfloor> mod 2 ^ 32 = \<lfloor>v\<rfloor>" using f0 by simp
  then have "toUnsignedLong v = nat \<lfloor>v\<rfloor>"
    using assms(1) by (simp add: toUnsignedLong_def)
  moreover have "nat \<lfloor>v\<rfloor> \<le> 2147483647" using f0 f1 by linarith
  ultimately show ?thesis by (simp add: reflectUnsignedLong_def)
qed

lemma setDim_nat:
  assumes "n < 2 ^ 31"
  shows "reflectUnsignedLong d (toUnsignedLong (real n)) = n"
proof -
  have "real n < 2 ^ 31" using assms by (metis of_nat_less_iff of_nat_numeral of_nat_power)
  then show ?thesis using toUnsignedLong_floor [of "real n" d] by simp
qed

lemma scaled_bounds:
  assumes "0 < p" "p \<le> 100" "0 < n" "n < 2 ^ 31"
  shows "0 < fl (fl (p / 100) * real n)" "fl (fl (p / 100) * real n) < 2 ^ 31"
proof -
  have a: "0 < fl (p / 100)" using assms(1) by (intro fl_pos) simp
  have "p / 100 \<le> of_int 1" using assms(2) by simp
  then have b: "fl (p / 100) \<le> of_int 1" by (rule fl_le_int) simp_all
  show "0 < fl (fl (p / 100) * real n)"
    using a assms(3) by (intro fl_pos) simp
  have n: "int n < 2 ^ 31" using assms(4) by (metis of_nat_less_iff of_nat_numeral of_nat_power)
  have "fl (p / 100) * real n \<le> 1 * real n"
    using b by (intro mult_right_mono) simp_all
  then have "fl (p / 100) * real n \<le> of_int (int n)" by simp
  then have "fl (fl (p / 100) * real n) \<le> of_int (int n)"
    using n by (intro fl_le_int) simp_all
  moreover have "real_of_int (int n) < 2 ^ 31"
    using n by (metis of_int_less_iff of_int_numeral of_int_power)
  ultimately show "fl (fl (p / 100) * real n) < 2 ^ 31" by linarith
qed

section \<open>Applying the crop\<close>

lemma applyCrop_available:
  assumes "0 < naturalWidth img" "0 < naturalHeight img"
    and "fl (fl (clampedWidth targetRatio c / 100) * real (naturalWidth img)) = sw"
    and "fl (fl (clampedHeight targetRatio c / 100) * real (naturalHeight img)) = sh"
    and "fl (fl (crop_x c / 100) * real (naturalWidth img)) = sx"
    and "fl (fl (crop_y c / 100) * real (naturalHeight img)) = sy"
    and "sw \<noteq> 0" "sh \<noteq> 0"
  shows "applyCrop targetRatio c (Some (Available img)) True =
     Delivered
      \<lparr>canvasWidth = reflectUnsignedLong 300 (toUnsignedLong sw),
       canvasHeight = reflectUnsignedLong 150 (toUnsignedLong sh),
       ctx = defaultContext,
       ops = [DrawImage defaultContext img (sx, sy, sw, sh) (0, 0, sw, sh)]\<rparr>"
  using assms
  by (simp add: applyCrop_def Let_def drawImageElement_def checkUsability_def
      elementNaturalWidth_def elementNaturalHeight_def setWidth_def setHeight_def
      drawImage_def createCanvas_def)

lemma applyCrop_scenario:
  assumes "naturalWidth img = 1000" "naturalHeight img = 1000"
  shows "applyCrop (fl (16 / 9)) initialCrop (Some (Available img)) True =
      Delivered
        \<lparr>canvasWidth = 800, canvasHeight = 450, ctx = defaultContext,
         ops = [DrawImage defaultContext img (100, 100, 800, 450) (0, 0, 800, 450)]\<rparr>"
proof -
  define r :: real where "r = (2001599834386887 / 1125899906842624)"
  have n: "real (naturalWidth img) = 1000" "real (naturalHeight img) = 1000"
    by (simp_all add: assms)
  have "height r initialCrop = 45"
    unfolding r_def by (rule height_eval [OF initialCrop_sel(3)]) (rule fl_height_16_9)
  then have ch: "clampedHeight r initialCrop = 45"
    by (rule clampedHeight_eval [where t = 90]) (simp_all add: initialCrop_sel fl_small_ints)
  then have cw: "clampedWidth r initialCrop = 80"
    unfolding r_def by (rule clampedWidth_eval) (rule fl_width_16_9)
  have sw: "fl (fl (clampedWidth r initialCrop / 100) * real (naturalWidth img)) = 800"
    by (rule source_eval [OF cw n(1) fl_pct_80 fl_px_80_1000])
  have sh: "fl (fl (clampedHeight r initialCrop / 100) * real (naturalHeight img)) = 450"
    by (rule source_eval [OF ch n(2) fl_pct_45 fl_px_45_1000])
  have sx: "fl (fl (crop_x initialCrop / 100) * real (naturalWidth img)) = 100"
    by (rule source_eval [OF initialCrop_sel(1) n(1) fl_pct_10 fl_px_10_1000])
  have sy: "fl (fl (crop_y initialCrop / 100) * real (naturalHeight img)) = 100"
    by (rule source_eval [OF initialCrop_sel(2) n(2) fl_pct_10 fl_px_10_1000])
  have "applyCrop r initialCrop (Some (Available img)) True =
     Delivered
      \<lparr>canvasWidth = reflectUnsignedLong 300 (toUnsignedLong 800),
       canvasHeight = reflectUnsignedLong 150 (toUnsignedLong 450),
       ctx = defaultContext,
       ops = [DrawImage defaultContext img (100, 100, 800, 450) (0, 0, 800, 450)]\<rparr>"
    by (rule applyCrop_available [OF _ _ sw sh sx sy]) (simp_all add: assms)
  moreover have "toUnsignedLong 800 = 800" "toUnsignedLong 450 = 450"
    by (simp_all add: toUnsignedLong_def)
  ultimately show ?thesis
    unfolding fl_16_9 r_def [symmetric] by (simp add: reflectUnsignedLong_def)
qed

text \<open>
  C2, as the code has it. For a target ratio from \<open>2^-900\<close> to \<open>2^40\<close>, a rendered
  selection of the cropper and an available image whose sides are positive and below
  \<open>2^31\<close>, \<open>applyCrop\<close> hands over a surface of \<open>floor(sourceWidth)\<close> by
  \<open>floor(sourceHeight)\<close> pixels, where \<open>sourceWidth\<close> and \<open>sourceHeight\<close> are the
  doubles the code computes for \<open>(clampedWidth / 100) * naturalWidth\<close> and
  \<open>(clampedHeight / 100) * naturalHeight\<close>: the size attributes drop the fraction,
  they do not round. On the surface the selected region of the source has been drawn at
  the origin, unscaled. For a 1000 by 1000 source, the ratio 16/9 (as a double) and the
  initial selection, the region runs from (100, 100) to (900, 550) and the output is 800
  by 450.
\<close>

theorem applyCrop_size:
  assumes "1 / 2 ^ 900 \<le> targetRatio" "targetRatio \<le> 2 ^ 40"
    and "0 < naturalWidth img" "naturalWidth img < 2 ^ 31"
    and "0 < naturalHeight img" "naturalHeight img < 2 ^ 31"
  shows "(let c = rendered (run targetRatio evs);
              sw = fl (fl (clampedWidth targetRatio c / 100) * real (naturalWidth img));
              sh = fl (fl (clampedHeight targetRatio c / 100) * real (naturalHeight img))
          in applyCrop targetRatio c (Some (Available img)) True =
             Delivered
               \<lparr>canvasWidth = nat \<lfloor>sw\<rfloor>, canvasHeight = nat \<lfloor>sh\<rfloor>, ctx = defaultContext,
                ops = [DrawImage defaultContext img
                         (fl (fl (crop_x c / 100) * real (naturalWidth img)),
                          fl (fl (crop_y c / 100) * real (naturalHeight img)), sw, sh)
                         (0, 0, sw, sh)]\<rparr>) \<and>
         applyCrop (fl (16 / 9)) initialCrop
             (Some (Available (img\<lparr>naturalWidth := 1000, naturalHeight := 1000\<rparr>))) True =
           Delivered
             \<lparr>canvasWidth = 800, canvasHeight = 450, ctx = defaultContext,
              ops = [DrawImage defaultContext (img\<lparr>naturalWidth := 1000, naturalHeight := 1000\<rparr>)
                       (100, 100, 800, 450) (0, 0, 800, 450)]\<rparr>"
proof -
  have pos: "0 < targetRatio"
    using assms(1) by (rule less_le_trans [rotated]) simp
  define c where "c = rendered (run targetRatio evs)"
  define sw where "sw = fl (fl (clampedWidth targetRatio c / 100) * real (naturalWidth img))"
  define sh where "sh = fl (fl (clampedHeight targetRatio c / 100) * real (naturalHeight img))"
  have ok: "selection_ok c"
    unfolding c_def using selection_ok_run [OF pos assms(2)] by simp
  then have w80: "crop_width c = 80" and y0: "0 \<le> crop_y c"
    by (simp_all add: selection_ok_def)
  have h0: "0 < clampedHeight targetRatio c"
    using clampedHeight_lower [OF pos assms(2) ok] by (rule less_le_trans [rotated]) simp
  have h1: "clampedHeight targetRatio c \<le> 100"
    by (rule clampedHeight_upper [OF y0])
  have "0 < clampedHeight targetRatio c * targetRatio" using h0 pos by simp
  then have w0: "0 < clampedWidth targetRatio c"
    unfolding clampedWidth_def by (rule fl_pos)
  have "clampedWidth targetRatio c \<le> 80 + 1 / 2 ^ 46"
    using clampedWidth_upper [OF pos w80] h0 by simp
  then have w1: "clampedWidth targetRatio c \<le> 100" by simp
  have sw: "0 < sw" "sw < 2 ^ 31"
    unfolding sw_def by (rule scaled_bounds [OF w0 w1 assms(3,4)])+
  have sh: "0 < sh" "sh < 2 ^ 31"
    unfolding sh_def by (rule scaled_bounds [OF h0 h1 assms(5,6)])+
  have "reflectUnsignedLong 300 (toUnsignedLong sw) = nat \<lfloor>sw\<rfloor>"
    using sw by (intro toUnsignedLong_floor) simp_all
  moreover have "reflectUnsignedLong 150 (toUnsignedLong sh) = nat \<lfloor>sh\<rfloor>"
    using sh by (intro toUnsignedLong_floor) simp_all
  moreover have "applyCrop targetRatio c (Some (Available img)) True =
     Delivered
      \<lparr>canvasWidth = reflectUnsignedLong 300 (toUnsignedLong sw),
       canvasHeight = reflectUnsignedLong 150 (toUnsignedLong sh),
       ctx = defaultContext,
       ops = [DrawImage defaultContext img
                (fl (fl (crop_x c / 100) * real (naturalWidth img)),
                 fl (fl (crop_y c / 100) * real (naturalHeight img)), sw, sh)
                (0, 0, sw, sh)]\<rparr>"
    using sw(1) sh(1)
    by (intro applyCrop_available [OF assms(3,5)]) (simp_all add: sw_def sh_def)
  ultimately have general: "applyCrop targetRatio c (Some (Available img)) True =
     Delivered
      \<lparr>canvasWidth = nat \<lfloor>sw\<rfloor>, canvasHeight = nat \<lfloor>sh\<rfloor>, ctx = defaultContext,
       ops = [DrawImage defaultContext img
                (fl (fl (crop_x c / 100) * real (naturalWidth img)),
                 fl (fl (crop_y c / 100) * real (naturalHeight img)), sw, sh)
                (0, 0, sw, sh)]\<rparr>"
    by (simp only:)
  have scenario: "applyCrop (fl (16 / 9)) initialCrop
        (Some (Available (img\<lparr>naturalWidth := 1000, naturalHeight := 1000\<rparr>))) True =
      Delivered
        \<lparr>canvasWidth = 800, canvasHeight = 450, ctx = defaultContext,
         ops = [DrawImage defaultContext (img\<lparr>naturalWidth := 1000, naturalHeight := 1000\<rparr>)
                  (100, 100, 800, 450) (0, 0, 800, 450)]\<rparr>"
    by (rule applyCrop_scenario) simp_all
  from general scenario show ?thesis
    unfolding Let_def c_def [symmetric] sw_def [symmetric] sh_def [symmetric] by (intro conjI)
qed

text \<open>
  An instance where the rounding decides the size: the ratio \<open>1.22\<close> on a 100 by 100
  source. The code's \<open>clampedWidth\<close> is \<open>79.99999999999999\<close>, and so is
  \<open>sourceWidth\<close>; the surface is 79 by 65.
\<close>

theorem applyCrop_size_witness:
  "1 / 2 ^ 900 \<le> fl (61 / 50) \<and> fl (61 / 50) \<le> 2 ^ 40 \<and>
   applyCrop (fl (61 / 50)) initialCrop
     (Some (Available (solidImage 100 100 (0, 0, 0, 255)))) True =
     Delivered
       \<lparr>canvasWidth = 79, canvasHeight = 65, ctx = defaultContext,
        ops = [DrawImage defaultContext (solidImage 100 100 (0, 0, 0, 255))
                 (10, 10, 5629499534213119 / 70368744177664, 4614343880502557 / 70368744177664)
                 (0, 0, 5629499534213119 / 70368744177664, 4614343880502557 / 70368744177664)]\<rparr>"
proof -
  define r :: real where "r = (5494391545392005 / 4503599627370496)"
  define img where "img = solidImage 100 100 (0, 0, 0, 255)"
  have r: "fl (61 / 50) = r" unfolding r_def by (rule fl_61_50)
  have a: "1 / 2 ^ 900 \<le> r" and b: "r \<le> 2 ^ 40"
    by (simp_all add: r_def)
  have n: "real (naturalWidth img) = 100" "real (naturalHeight img) = 100"
    by (simp_all add: img_def solidImage_def)
  have "height r initialCrop = 4614343880502557 / 70368744177664"
    unfolding r_def by (rule height_eval [OF initialCrop_sel(3)]) (rule fl_height_61_50)
  then have ch: "clampedHeight r initialCrop = 4614343880502557 / 70368744177664"
    by (rule clampedHeight_eval [where t = 90]) (simp_all add: initialCrop_sel fl_small_ints)
  then have cw: "clampedWidth r initialCrop = 5629499534213119 / 70368744177664"
    unfolding r_def by (rule clampedWidth_eval) (rule fl_width_61_50)
  have sw: "fl (fl (clampedWidth r initialCrop / 100) * real (naturalWidth img)) = 5629499534213119 / 70368744177664"
    by (rule source_eval [OF cw n(1) fl_pct_width_61_50 fl_px_width_61_50])
  have sh: "fl (fl (clampedHeight r initialCrop / 100) * real (naturalHeight img)) = 4614343880502557 / 70368744177664"
    by (rule source_eval [OF ch n(2) fl_pct_height_61_50 fl_px_height_61_50])
  have sx: "fl (fl (crop_x initialCrop / 100) * real (naturalWidth img)) = 10"
    by (rule source_eval [OF initialCrop_sel(1) n(1) fl_pct_10 fl_px_10_100])
  have sy: "fl (fl (crop_y initialCrop / 100) * real (naturalHeight img)) = 10"
    by (rule source_eval [OF initialCrop_sel(2) n(2) fl_pct_10 fl_px_10_100])
  have fw: "nat \<lfloor>5629499534213119 / 70368744177664 :: real\<rfloor> = 79"
    by simp
  have fh: "nat \<lfloor>4614343880502557 / 70368744177664 :: real\<rfloor> = 65"
    by simp
  have d: "0 < naturalWidth img" "naturalWidth img < 2 ^ 31"
    "0 < naturalHeight img" "naturalHeight img < 2 ^ 31"
    by (simp_all add: img_def solidImage_def)
  have m: "rendered (run r []) = initialCrop"
    by (simp add: run_Nil mounted_def)
  have "applyCrop r initialCrop (Some (Available img)) True =
     Delivered
       \<lparr>canvasWidth = 79, canvasHeight = 65, ctx = defaultContext,
        ops = [DrawImage defaultContext img (10, 10, 5629499534213119 / 70368744177664, 4614343880502557 / 70368744177664) (0, 0, 5629499534213119 / 70368744177664, 4614343880502557 / 70368744177664)]\<rparr>"
    using applyCrop_size [OF a b d, of "[]", unfolded Let_def m sw sh sx sy fw fh]
    by (rule conjunct1)
  with a b show ?thesis
    unfolding r img_def by simp
qed

text \<open>
  C2 as stated fails: for a 1001 by 1001 source, ratio 1 and the initial selection, the
  region is \<open>800.8000000000001\<close> pixels wide and high; the output surface is 800 by 800,
  where rounding \<open>clampedWidth/100 * naturalWidth\<close> gives 801 by 801.
\<close>

theorem applyCrop_size_not_rounded:
  "applyCrop 1 initialCrop (Some (Available (solidImage 1001 1001 (0, 0, 0, 255)))) True =
     Delivered
       \<lparr>canvasWidth = 800, canvasHeight = 800, ctx = defaultContext,
        ops = [DrawImage defaultContext (solidImage 1001 1001 (0, 0, 0, 255))
                 (7043911292184167 / 70368744177664, 7043911292184167 / 70368744177664, 7043911292184167 / 8796093022208, 7043911292184167 / 8796093022208)
                 (0, 0, 7043911292184167 / 8796093022208, 7043911292184167 / 8796093022208)]\<rparr> \<and>
   cropSize_spec 1 initialCrop (solidImage 1001 1001 (0, 0, 0, 255)) = (801, 801)"
proof -
  define img where "img = solidImage 1001 1001 (0, 0, 0, 255)"
  have n: "real (naturalWidth img) = 1001" "real (naturalHeight img) = 1001"
    by (simp_all add: img_def solidImage_def)
  have "height 1 initialCrop = 80"
    by (rule height_eval [OF initialCrop_sel(3)]) (simp add: fl_small_ints)
  then have ch: "clampedHeight 1 initialCrop = 80"
    by (rule clampedHeight_eval [where t = 90]) (simp_all add: initialCrop_sel fl_small_ints)
  then have cw: "clampedWidth 1 initialCrop = 80"
    by (rule clampedWidth_eval) (simp add: fl_small_ints)
  have sw: "fl (fl (clampedWidth 1 initialCrop / 100) * real (naturalWidth img)) = 7043911292184167 / 8796093022208"
    by (rule source_eval [OF cw n(1) fl_pct_80 fl_px_80_1001])
  have sh: "fl (fl (clampedHeight 1 initialCrop / 100) * real (naturalHeight img)) = 7043911292184167 / 8796093022208"
    by (rule source_eval [OF ch n(2) fl_pct_80 fl_px_80_1001])
  have sx: "fl (fl (crop_x initialCrop / 100) * real (naturalWidth img)) = 7043911292184167 / 70368744177664"
    by (rule source_eval [OF initialCrop_sel(1) n(1) fl_pct_10 fl_px_10_1001])
  have sy: "fl (fl (crop_y initialCrop / 100) * real (naturalHeight img)) = 7043911292184167 / 70368744177664"
    by (rule source_eval [OF initialCrop_sel(2) n(2) fl_pct_10 fl_px_10_1001])
  have "applyCrop 1 initialCrop (Some (Available img)) True =
     Delivered
      \<lparr>canvasWidth = reflectUnsignedLong 300 (toUnsignedLong (7043911292184167 / 8796093022208)),
       canvasHeight = reflectUnsignedLong 150 (toUnsignedLong (7043911292184167 / 8796093022208)),
       ctx = defaultContext,
       ops = [DrawImage defaultContext img (7043911292184167 / 70368744177664, 7043911292184167 / 70368744177664, 7043911292184167 / 8796093022208, 7043911292184167 / 8796093022208) (0, 0, 7043911292184167 / 8796093022208, 7043911292184167 / 8796093022208)]\<rparr>"
    by (rule applyCrop_available [OF _ _ sw sh sx sy]) (simp_all add: img_def solidImage_def)
  moreover have "toUnsignedLong (7043911292184167 / 8796093022208) = 800"
    by (simp add: toUnsignedLong_def)
  moreover have "round (80 / 100 * 1001 :: real) = 801"
    by (simp add: round_def)
  ultimately show ?thesis
    unfolding img_def [symmetric]
    by (simp add: cropSize_spec_def ch cw n reflectUnsignedLong_def)
qed

section \<open>The text overlay\<close>

text \<open>
  What \<open>onload\<close> leaves, without and with text. The surface it starts from does not
  matter: assigning the width clears the bitmap and resets the context.
\<close>

lemma onload_independent: "onload img st cv = onload img st cv'"
  by (simp add: onload_def setWidth_def setHeight_def Let_def)

lemma onload_plain:
  assumes "st_text st = []"
  shows "onload img st cv =
    \<lparr>canvasWidth = reflectUnsignedLong 300 (toUnsignedLong (real (naturalWidth img))),
     canvasHeight = reflectUnsignedLong 150 (toUnsignedLong (real (naturalHeight img))),
     ctx = defaultContext,
     ops = [DrawImage defaultContext img (wholeImage img) (wholeImage img)]\<rparr>"
  using assms
  by (simp add: onload_def setWidth_def setHeight_def drawImageAt_def drawImage_def
      wholeImage_def Let_def)

lemma onload_text:
  assumes "st_text st \<noteq> []"
  shows "onload img st cv =
    \<lparr>canvasWidth = reflectUnsignedLong 300 (toUnsignedLong (real (naturalWidth img))),
     canvasHeight = reflectUnsignedLong 150 (toUnsignedLong (real (naturalHeight img))),
     ctx = textContext img st,
     ops = [DrawImage defaultContext img (wholeImage img) (wholeImage img),
            FillText (textContext img st) (st_text st)
              (real (reflectUnsignedLong 300 (toUnsignedLong (real (naturalWidth img)))) / 2)
              (real (reflectUnsignedLong 150 (toUnsignedLong (real (naturalHeight img))))
                 * st_positionY st / 100)]\<rparr>"
  using assms
  by (simp add: onload_def setWidth_def setHeight_def drawImageAt_def drawImage_def
      wholeImage_def Let_def setFillStyle_def setFont_def setTextAlign_def setShadowColor_def
      setShadowBlur_def fillText_def textContext_def defaultContext_def)

lemma onload_text_sized:
  assumes "st_text st \<noteq> []" "naturalWidth img < 2 ^ 31" "naturalHeight img < 2 ^ 31"
  shows "onload img st cv =
    \<lparr>canvasWidth = naturalWidth img, canvasHeight = naturalHeight img,
     ctx = textContext img st,
     ops = [DrawImage defaultContext img (wholeImage img) (wholeImage img),
            FillText (textContext img st) (st_text st) (real (naturalWidth img) / 2)
              (real (naturalHeight img) * st_positionY st / 100)]\<rparr>"
  by (simp add: onload_text [OF assms(1)] setDim_nat [OF assms(2)] setDim_nat [OF assms(3)])

lemma onload_plain_sized:
  assumes "st_text st = []" "naturalWidth img < 2 ^ 31" "naturalHeight img < 2 ^ 31"
  shows "onload img st cv =
    \<lparr>canvasWidth = naturalWidth img, canvasHeight = naturalHeight img,
     ctx = defaultContext,
     ops = [DrawImage defaultContext img (wholeImage img) (wholeImage img)]\<rparr>"
  by (simp add: onload_plain [OF assms(1)] setDim_nat [OF assms(2)] setDim_nat [OF assms(3)])

text \<open>
  C5, as the code has it. With a non-empty text (and image sides below \<open>2^31\<close>) the
  text is drawn once, centre-aligned, at \<open>x = width/2\<close> and
  \<open>y = height * positionY/100\<close>, under a shadow of colour \<open>rgba(0,0,0,0.5)\<close> and
  blur 10. The blur is the constant 10 in pixels of the output surface, whatever the
  source resolution: it is not scaled by \<open>width/500\<close> as the font size is.
\<close>

theorem text_overlay_placement:
  assumes "st_text st \<noteq> []" "naturalWidth img < 2 ^ 31" "naturalHeight img < 2 ^ 31"
  shows "map (\<lambda>(c, t, tx, ty). (t, tx, ty, textAlign c, shadowColor c, shadowBlur c))
           (textDraws (ops (onload img st cv))) =
         [(st_text st, real (naturalWidth img) / 2,
           real (naturalHeight img) * st_positionY st / 100,
           ''center'', ''rgba(0,0,0,0.5)'', 10)]"
  by (simp add: onload_text_sized [OF assms] textContext_def)

theorem text_overlay_placement_witness:
  "map (\<lambda>(c, t, tx, ty). (t, tx, ty, textAlign c, shadowColor c, shadowBlur c))
     (textDraws (ops (onload (solidImage 2000 1000 (0, 0, 0, 255))
        (initialStyle\<lparr>st_text := ''Sale'', st_positionY := 80\<rparr>) createCanvas))) =
   [(''Sale'', 1000, 800, ''center'', ''rgba(0,0,0,0.5)'', 10)]"
  using text_overlay_placement [of "initialStyle\<lparr>st_text := ''Sale'', st_positionY := 80\<rparr>"
      "solidImage 2000 1000 (0, 0, 0, 255)" createCanvas]
  by (simp add: solidImage_def initialStyle_def)

text \<open>
  C5 as stated fails: from a 500px to a 1000px wide source the font size doubles, from
  32 to 64, and the shadow blur stays 10; scaled like the font size it would be 20.
\<close>

theorem shadow_blur_not_scaled:
  "map (\<lambda>(c, t, tx, ty). (fs_sizePx (ctxFont c), shadowBlur c))
     (textDraws (ops (onload (solidImage 500 500 (0, 0, 0, 255))
        (initialStyle\<lparr>st_text := ''Sale''\<rparr>) createCanvas))) = [(32, 10)] \<and>
   map (\<lambda>(c, t, tx, ty). (fs_sizePx (ctxFont c), shadowBlur c))
     (textDraws (ops (onload (solidImage 1000 1000 (0, 0, 0, 255))
        (initialStyle\<lparr>st_text := ''Sale''\<rparr>) createCanvas))) = [(64, 10)] \<and>
   shadowBlur_spec 10 1000 = 20"
  by (simp add: onload_text textContext_def solidImage_def initialStyle_def shadowBlur_spec_def)

lemma roundtrip_opaque: "unpremultiply (premultiply (r, g, b, 255)) = (r, g, b, 255)"
  by (simp add: premultiply_def unpremultiply_def)

text \<open>
  C6, as the code has it. With an empty text, rendering is not an error: only the source
  is drawn, once, at the origin and at its natural size, onto a surface of the source's
  size; the context keeps its default fill, font and shadow, and no text is drawn.
  Saving hands that surface over. Each of its pixels is the source's pixel after the
  surface's premultiplied storage: identical to the source's wherever the source is
  opaque.
\<close>

theorem render_without_text:
  assumes "st_text st = []" "naturalWidth img < 2 ^ 31" "naturalHeight img < 2 ^ 31"
  shows "render (Some cv) True (Some img) st =
           Some \<lparr>canvasWidth = naturalWidth img, canvasHeight = naturalHeight img,
                 ctx = defaultContext,
                 ops = [DrawImage defaultContext img (wholeImage img) (wholeImage img)]\<rparr> \<and>
         handleSave (render (Some cv) True (Some img) st) = Delivered (onload img st cv) \<and>
         textDraws (ops (onload img st cv)) = [] \<and>
         (\<forall>i j. surfacePixel (onload img st cv) i j =
                  (if i < naturalWidth img \<and> j < naturalHeight img
                   then Some (unpremultiply (premultiply (pixel img i j))) else None)) \<and>
         (\<forall>i j r g b. i < naturalWidth img \<and> j < naturalHeight img \<and>
                  pixel img i j = (r, g, b, 255) \<longrightarrow>
                  surfacePixel (onload img st cv) i j = Some (pixel img i j))"
  by (simp add: render_def handleSave_def onload_plain_sized [OF assms] surfacePixel_def
      roundtrip_opaque)

theorem render_without_text_witness:
  "render (Some createCanvas) True (Some (solidImage 4 3 (9, 8, 7, 255))) initialStyle =
     Some \<lparr>canvasWidth = 4, canvasHeight = 3, ctx = defaultContext,
           ops = [DrawImage defaultContext (solidImage 4 3 (9, 8, 7, 255)) (0, 0, 4, 3) (0, 0, 4, 3)]\<rparr> \<and>
   surfacePixel (onload (solidImage 4 3 (9, 8, 7, 255)) initialStyle createCanvas) 3 2 =
     Some (9, 8, 7, 255)"
  using render_without_text [of initialStyle "solidImage 4 3 (9, 8, 7, 255)" createCanvas]
  by (simp add: solidImage_def initialStyle_def wholeImage_def roundtrip_opaque)

text \<open>
  C6 as stated fails for a source that is not opaque: a pixel \<open>(200, 100, 50)\<close> of
  alpha 3 is stored premultiplied as \<open>(2, 1, 1)\<close> and comes back as
  \<open>(170, 85, 85)\<close>.
\<close>

theorem render_changes_translucent_pixel:
  "pixel (solidImage 4 3 (200, 100, 50, 3)) 0 0 = (200, 100, 50, 3) \<and>
   surfacePixel (onload (solidImage 4 3 (200, 100, 50, 3)) initialStyle createCanvas) 0 0 =
     Some (170, 85, 85, 3)"
proof -
  have "st_text initialStyle = []" by (simp add: initialStyle_def)
  then have "onload (solidImage 4 3 (200, 100, 50, 3)) initialStyle createCanvas =
    \<lparr>canvasWidth = 4, canvasHeight = 3, ctx = defaultContext,
     ops = [DrawImage defaultContext (solidImage 4 3 (200, 100, 50, 3))
              (wholeImage (solidImage 4 3 (200, 100, 50, 3)))
              (wholeImage (solidImage 4 3 (200, 100, 50, 3)))]\<rparr>"
    using onload_plain_sized [of initialStyle "solidImage 4 3 (200, 100, 50, 3)" createCanvas]
    by (simp add: solidImage_def)
  then show ?thesis
    by (simp add: surfacePixel_def solidImage_def premultiply_def unpremultiply_def)
qed

text \<open>
  C7. Rendering is a function of the image and the style alone: rendering twice with the
  same image and style gives the same surface as rendering once; rendering with a
  style after any other render gives what that style gives on any surface, so the text
  is replaced, not stacked (at most one text is on the surface, the current one); and
  the first thing drawn is always the whole, untouched source image.
\<close>

theorem render_replaces:
  "render (render (Some cv) True (Some img) st) True (Some img) st =
     render (Some cv) True (Some img) st \<and>
   render (render (Some cv) True (Some img) st') True (Some img) st =
     render (Some cv') True (Some img) st \<and>
   hd (ops (onload img st cv)) = DrawImage defaultContext img (wholeImage img) (wholeImage img) \<and>
   textDraws (ops (onload img st (onload img st' cv))) =
     (if st_text st = [] then []
      else [(ctx (onload img st cv'), st_text st,
             real (canvasWidth (onload img st cv')) / 2,
             real (canvasHeight (onload img st cv')) * st_positionY st / 100)])"
proof -
  have a: "onload img st (onload img st cv) = onload img st cv"
    by (rule onload_independent)
  have b: "onload img st (onload img st' cv) = onload img st cv'"
    by (rule onload_independent)
  have c: "hd (ops (onload img st cv)) =
      DrawImage defaultContext img (wholeImage img) (wholeImage img)"
    by (cases "st_text st = []") (simp_all add: onload_plain onload_text)
  have d: "textDraws (ops (onload img st cv')) =
     (if st_text st = [] then []
      else [(ctx (onload img st cv'), st_text st,
             real (canvasWidth (onload img st cv')) / 2,
             real (canvasHeight (onload img st cv')) * st_positionY st / 100)])"
    by (cases "st_text st = []") (simp_all add: onload_plain onload_text)
  show ?thesis
    unfolding b using a b c d by (simp add: render_def)
qed

text \<open>
  C8. Whenever text is drawn, the font size set is \<open>fontSize * (width / 500)\<close>, with
  \<open>width\<close> the natural width of the source; a font size of 32 on a 1000px wide
  image gives 64.
\<close>

theorem font_size_scaled:
  assumes "st_text st \<noteq> []"
  shows "map (\<lambda>(c, t, tx, ty). fs_sizePx (ctxFont c)) (textDraws (ops (onload img st cv))) =
           [st_fontSize st * (real (naturalWidth img) / 500)] \<and>
         (st_fontSize st = 32 \<and> naturalWidth img = 1000 \<longrightarrow>
            map (\<lambda>(c, t, tx, ty). fs_sizePx (ctxFont c)) (textDraws (ops (onload img st cv))) =
              [64])"
  by (simp add: onload_text [OF assms] textContext_def)

theorem font_size_scaled_witness:
  "map (\<lambda>(c, t, tx, ty). fs_sizePx (ctxFont c))
     (textDraws (ops (onload (solidImage 1000 1000 (0, 0, 0, 255))
        (initialStyle\<lparr>st_text := ''Sale''\<rparr>) createCanvas))) = [64]"
  using font_size_scaled [of "initialStyle\<lparr>st_text := ''Sale''\<rparr>"
      "solidImage 1000 1000 (0, 0, 0, 255)" createCanvas]
  by (simp add: solidImage_def initialStyle_def)

text \<open>
  C10. Whenever text is drawn, the font weight set is the weight of the selected font
  entry and \<open>'700'\<close> when the entry has none (or an empty one). Of the four entries of
  \<open>FONTS\<close> only \<open>Display\<close> has a weight, \<open>'900'\<close>; so text in Sans, Serif and Mono
  is drawn at weight 700 and text in Display at 900.
\<close>

theorem font_weight_default:
  "(st_text st \<noteq> [] \<longrightarrow>
      map (\<lambda>(c, t, tx, ty). fs_weight (ctxFont c)) (textDraws (ops (onload img st cv))) =
        [case font_weight (st_font st) of None \<Rightarrow> ''700''
         | Some w \<Rightarrow> if w = [] then ''700'' else w]) \<and>
   map (\<lambda>f. (font_name f, font_weight f)) FONTS =
     [(''Sans'', None), (''Serif'', None), (''Mono'', None), (''Display'', Some ''900'')] \<and>
   (\<forall>f \<in> set FONTS. st_text st \<noteq> [] \<and> st_font st = f \<longrightarrow>
      map (\<lambda>(c, t, tx, ty). fs_weight (ctxFont c)) (textDraws (ops (onload img st cv))) =
        [if font_name f = ''Display'' then ''900'' else ''700''])"
proof -
  have w: "map (\<lambda>(c, t, tx, ty). fs_weight (ctxFont c)) (textDraws (ops (onload img st cv))) =
      [orDefault (font_weight (st_font st)) ''700'']" if "st_text st \<noteq> []"
    by (simp add: onload_text [OF that] textContext_def)
  have "map (\<lambda>(c, t, tx, ty). fs_weight (ctxFont c)) (textDraws (ops (onload img st cv))) =
        [if font_name f = ''Display'' then ''900'' else ''700'']"
    if "f \<in> set FONTS" "st_text st \<noteq> []" "st_font st = f" for f
    using that(1) by (auto simp: w [OF that(2)] that(3) FONTS_def orDefault_def)
  moreover have "map (\<lambda>f. (font_name f, font_weight f)) FONTS =
     [(''Sans'', None), (''Serif'', None), (''Mono'', None), (''Display'', Some ''900'')]"
    by (simp add: FONTS_def)
  ultimately show ?thesis
    using w by (auto simp: orDefault_def split: option.splits)
qed

theorem font_weight_default_witness:
  "map (\<lambda>(c, t, tx, ty). fs_weight (ctxFont c))
     (textDraws (ops (onload (solidImage 1000 1000 (0, 0, 0, 255))
        (initialStyle\<lparr>st_text := ''Sale''\<rparr>) createCanvas))) = [''700''] \<and>
   map (\<lambda>(c, t, tx, ty). fs_weight (ctxFont c))
     (textDraws (ops (onload (solidImage 1000 1000 (0, 0, 0, 255))
        (initialStyle\<lparr>st_text := ''Sale'', st_font := last FONTS\<rparr>) createCanvas))) = [''900'']"
  using font_weight_default [of "initialStyle\<lparr>st_text := ''Sale''\<rparr>"
      "solidImage 1000 1000 (0, 0, 0, 255)" createCanvas]
    font_weight_default [of "initialStyle\<lparr>st_text := ''Sale'', st_font := last FONTS\<rparr>"
      "solidImage 1000 1000 (0, 0, 0, 255)" createCanvas]
  by (simp add: initialStyle_def FONTS_def)

section \<open>Failures\<close>

lemma applyCrop_no_context: "applyCrop targetRatio c imageRef False = NoOp"
  by (simp add: applyCrop_def split: option.splits)

lemma applyCrop_broken: "applyCrop targetRatio c (Some Broken) True = Thrown InvalidStateError"
  by (simp add: applyCrop_def Let_def drawImageElement_def checkUsability_def)

lemma applyCrop_pending:
  "applyCrop targetRatio c (Some Pending) True =
     Delivered \<lparr>canvasWidth = 0, canvasHeight = 0, ctx = defaultContext, ops = []\<rparr>"
  by (simp add: applyCrop_def Let_def drawImageElement_def checkUsability_def
      elementNaturalWidth_def elementNaturalHeight_def setWidth_def setHeight_def
      toUnsignedLong_def reflectUnsignedLong_def)

text \<open>
  C9, as the code has it. When the source image failed to decode, \<open>applyCrop\<close> fails
  with an error and hands nothing over: \<open>drawImage\<close> throws \<open>InvalidStateError\<close> on
  the broken element, and nothing catches it. Without the image element or without a 2D
  context \<open>applyCrop\<close> returns silently: \<open>onConfirm\<close> is not called and no error is
  reported. What \<open>applyCrop\<close> hands over is never half-drawn: it is the surface after
  both size assignments and the complete \<open>drawImage\<close> call (for an image that is not
  available yet, an empty surface of size 0 by 0). Rendering reports no error: without
  the canvas element or its context, or when the image never loads, it leaves the
  surface as it was, and saving hands over whatever the surface holds.
\<close>

theorem failures_are_silent:
  "applyCrop targetRatio c (Some Broken) True = Thrown InvalidStateError \<and>
   applyCrop targetRatio c None hasCtx = NoOp \<and>
   applyCrop targetRatio c imageRef False = NoOp \<and>
   applyCrop targetRatio c (Some Pending) True =
     Delivered \<lparr>canvasWidth = 0, canvasHeight = 0, ctx = defaultContext, ops = []\<rparr> \<and>
   (\<forall>out. applyCrop targetRatio c imageRef hasCtx = Delivered out \<longrightarrow>
      hasCtx \<and>
      (\<exists>el. imageRef = Some el \<and> el \<noteq> Broken \<and>
         (let sw = fl (fl (clampedWidth targetRatio c / 100) * real (elementNaturalWidth el));
              sh = fl (fl (clampedHeight targetRatio c / 100) * real (elementNaturalHeight el))
          in drawImageElement el
               (fl (fl (crop_x c / 100) * real (elementNaturalWidth el)))
               (fl (fl (crop_y c / 100) * real (elementNaturalHeight el)))
               sw sh 0 0 sw sh (setHeight sh (setWidth sw createCanvas)) = Inr out))) \<and>
   render None hasCtx loaded st = None \<and>
   render (Some cv) False loaded st = Some cv \<and>
   render (Some cv) True None st = Some cv \<and>
   handleSave None = NoOp \<and>
   handleSave (Some cv) = Delivered cv"
proof -
  have "hasCtx \<and>
      (\<exists>el. imageRef = Some el \<and> el \<noteq> Broken \<and>
         (let sw = fl (fl (clampedWidth targetRatio c / 100) * real (elementNaturalWidth el));
              sh = fl (fl (clampedHeight targetRatio c / 100) * real (elementNaturalHeight el))
          in drawImageElement el
               (fl (fl (crop_x c / 100) * real (elementNaturalWidth el)))
               (fl (fl (crop_y c / 100) * real (elementNaturalHeight el)))
               sw sh 0 0 sw sh (setHeight sh (setWidth sw createCanvas)) = Inr out))"
    if "applyCrop targetRatio c imageRef hasCtx = Delivered out" for out
  proof (cases imageRef)
    case None
    with that show ?thesis by (simp add: applyCrop_def)
  next
    case (Some el)
    with that have ctx: hasCtx by (auto simp: applyCrop_def split: if_splits)
    have nb: "el \<noteq> Broken"
      using that Some ctx by (auto simp: applyCrop_broken)
    from that Some ctx nb show ?thesis
      by (auto simp: applyCrop_def Let_def split: sum.splits)
  qed
  then have delivered: "\<forall>out. applyCrop targetRatio c imageRef hasCtx = Delivered out \<longrightarrow>
      hasCtx \<and>
      (\<exists>el. imageRef = Some el \<and> el \<noteq> Broken \<and>
         (let sw = fl (fl (clampedWidth targetRatio c / 100) * real (elementNaturalWidth el));
              sh = fl (fl (clampedHeight targetRatio c / 100) * real (elementNaturalHeight el))
          in drawImageElement el
               (fl (fl (crop_x c / 100) * real (elementNaturalWidth el)))
               (fl (fl (crop_y c / 100) * real (elementNaturalHeight el)))
               sw sh 0 0 sw sh (setHeight sh (setWidth sw createCanvas)) = Inr out))"
    by blast
  have none: "applyCrop targetRatio c None hasCtx = NoOp"
    by (simp add: applyCrop_def)
  have rendering: "render None hasCtx loaded st = None"
    "render (Some cv) False loaded st = Some cv"
    "render (Some cv) True None st = Some cv"
    by (simp_all add: render_def)
  have saving: "handleSave None = NoOp" "handleSave (Some cv) = Delivered cv"
    by (simp_all add: handleSave_def)
  from applyCrop_broken [of targetRatio c] none applyCrop_no_context [of targetRatio c imageRef]
    applyCrop_pending [of targetRatio c] delivered rendering saving
  show ?thesis
    by (intro conjI)
qed

theorem failures_are_silent_witness:
  "applyCrop (fl (16 / 9)) initialCrop (Some Broken) True = Thrown InvalidStateError \<and>
   applyCrop (fl (16 / 9)) initialCrop None True = NoOp \<and>
   applyCrop (fl (16 / 9)) initialCrop
     (Some (Available (solidImage 1000 1000 (0, 0, 0, 255)))) False = NoOp \<and>
   render (Some createCanvas) True None (initialStyle\<lparr>st_text := ''Sale''\<rparr>) =
     Some createCanvas \<and>
   (\<exists>out. applyCrop (fl (16 / 9)) initialCrop
      (Some (Available (solidImage 1000 1000 (0, 0, 0, 255)))) True = Delivered out \<and>
      drawImageElement (Available (solidImage 1000 1000 (0, 0, 0, 255)))
        100 100 800 450 0 0 800 450
        (setHeight 450 (setWidth 800 createCanvas)) = Inr out)"
proof -
  define img where "img = solidImage 1000 1000 (0, 0, 0, 255)"
  have d: "naturalWidth img = 1000" "naturalHeight img = 1000"
    by (simp_all add: img_def solidImage_def)
  note t = failures_are_silent [of "fl (16 / 9)" initialCrop True "Some (Available img)"
      None "initialStyle\<lparr>st_text := ''Sale''\<rparr>" createCanvas]
  have o: "applyCrop (fl (16 / 9)) initialCrop (Some (Available img)) True =
      Delivered
        \<lparr>canvasWidth = 800, canvasHeight = 450, ctx = defaultContext,
         ops = [DrawImage defaultContext img (100, 100, 800, 450) (0, 0, 800, 450)]\<rparr>"
    by (rule applyCrop_scenario [OF d])
  have "drawImageElement (Available img) 100 100 800 450 0 0 800 450
      (setHeight 450 (setWidth 800 createCanvas)) =
      Inr \<lparr>canvasWidth = 800, canvasHeight = 450, ctx = defaultContext,
         ops = [DrawImage defaultContext img (100, 100, 800, 450) (0, 0, 800, 450)]\<rparr>"
    by (simp add: drawImageElement_def checkUsability_def d setWidth_def setHeight_def
        drawImage_def createCanvas_def toUnsignedLong_def reflectUnsignedLong_def)
  with o t show ?thesis
    unfolding img_def [symmetric]
    by (simp add: failures_are_silent [of "fl (16 / 9)" initialCrop False])
qed

text \<open>
  C9 as stated fails: when no 2D context can be acquired \<open>applyCrop\<close> reports no
  \<open>RenderError\<close>, it just returns; and when the image of the editor fails to load,
  saving hands over the blank 300 by 150 surface as the result, with no error either.
\<close>

theorem no_render_error_surfaced:
  "applyCrop (fl (16 / 9)) initialCrop
     (Some (Available (solidImage 1000 1000 (0, 0, 0, 255)))) False \<noteq> Failed RenderError \<and>
   applyCrop (fl (16 / 9)) initialCrop
     (Some (Available (solidImage 1000 1000 (0, 0, 0, 255)))) False = NoOp \<and>
   handleSave (render (Some createCanvas) True None (initialStyle\<lparr>st_text := ''Sale''\<rparr>)) =
     Delivered createCanvas"
  by (simp add: applyCrop_def render_def handleSave_def)

end
